theory Spec2Isabelle
  imports Main "HOL-Library.Word"
begin

section \<open>The EDS store of share/eds/store.go\<close>

text \<open>
  The store is a facade over a shard lifecycle manager (the dagstore library), a
  filesystem, a full-index repository and an accessor cache. The facade's functions are
  translated from store.go; what they call outside that file is either an answer supplied
  by the environment of the call (record \<open>env\<close>) or a small state model whose comment
  says where it comes from. Every call that leaves the facade is recorded, in order, in the
  store's \<open>trace\<close>. Tracing spans and metric observations are not modelled.
\<close>

subsection \<open>Bytes, keys, errors\<close>

type_synonym bytes = "8 word list"

text \<open>share.DataHash is a byte slice.\<close>
type_synonym DataHash = bytes

text \<open>time.Duration counts nanoseconds.\<close>
type_synonym Duration = int

definition Second :: Duration where
  "Second = 1000000000"

definition Minute :: Duration where
  "Minute = 60 * Second"

text \<open>shard.Key wraps a string; shard.KeyFromString builds it.\<close>
datatype Key = KeyFromString (Key_String: string)

text \<open>
  Go errors. \<open>Errorf msg e\<close> is \<open>fmt.Errorf(msg + ": %w", e)\<close>; \<open>Failure msg\<close> is an
  error with no wrapped cause; \<open>Canceled\<close> and \<open>DeadlineExceeded\<close> are the two values
  of \<open>ctx.Err()\<close>.
\<close>
datatype err =
    ErrShardExists
  | ErrShardUnknown
  | ErrNotFound
  | errCacheMiss
  | Canceled
  | DeadlineExceeded
  | Failure string
  | Errorf string err

text \<open>errors.Is: the error itself or anything in its chain of wrapped causes.\<close>
fun errors_Is :: "err \<Rightarrow> err \<Rightarrow> bool" where
  "errors_Is (Errorf msg e) target = (Errorf msg e = target \<or> errors_Is e target)"
| "errors_Is e target = (e = target)"

text \<open>errors.Is on a possibly nil error: nil matches no sentinel.\<close>
definition errors_Is_opt :: "err option \<Rightarrow> err \<Rightarrow> bool" where
  "errors_Is_opt r target = (case r of None \<Rightarrow> False | Some e \<Rightarrow> errors_Is e target)"

text \<open>Hexadecimal rendering of a byte slice, with the digits given.\<close>
definition hexByte :: "string \<Rightarrow> 8 word \<Rightarrow> string" where
  "hexByte digits b = [digits ! (unat b div 16), digits ! (unat b mod 16)]"

definition hexString :: "string \<Rightarrow> bytes \<Rightarrow> string" where
  "hexString digits bs = concat (map (hexByte digits) bs)"

text \<open>
  Modelled from the spec: DataHash.String (share package, not in store.go), "its canonical
  string/hex encoding" (section 3); upper-case digits, which hex.DecodeString in
  \<open>list\<close> reads back.
\<close>
definition DataHash_String :: "DataHash \<Rightarrow> string" where
  "DataHash_String root = hexString ''0123456789ABCDEF'' root"

text \<open>The \<open>%x\<close> verb of the integrity error message.\<close>
definition hex_lower :: "bytes \<Rightarrow> string" where
  "hex_lower bs = hexString ''0123456789abcdef'' bs"

definition blocksPath :: string where
  "blocksPath = ''/blocks/''"

definition indexPath :: string where
  "indexPath = ''/index/''"

definition transientsPath :: string where
  "transientsPath = ''/transients/''"

definition defaultGCInterval :: Duration where
  "defaultGCInterval = 0"

subsection \<open>The mount that is read once from memory\<close>

text \<open>
  inMemoryOnceMount: an optional buffer, the readOnce flag and the embedded
  FileMount with its Path.
\<close>
record inMemoryOnceMount =
  buf :: "bytes option"
  readOnce :: bool
  Path :: string

text \<open>
  A mount.Reader is either the inMemoryReader over the buffer's bytes or the reader that
  FileMount.Fetch opens on the file.
\<close>
datatype Reader = inMemoryReader bytes | FileReader bytes

fun Reader_bytes :: "Reader \<Rightarrow> bytes" where
  "Reader_bytes (inMemoryReader b) = b"
| "Reader_bytes (FileReader b) = b"

text \<open>The files of the host, by path.\<close>
type_synonym filesystem = "string \<rightharpoonup> bytes"

text \<open>
  FileMount.Fetch of the dagstore mount package opens the file at the path: a reader over
  its contents, or the error of opening a file that is not there.
\<close>
definition FileMount_Fetch :: "filesystem \<Rightarrow> string \<Rightarrow> err + Reader" where
  "FileMount_Fetch fs p =
     (case fs p of
        None \<Rightarrow> Inl (Failure (''open '' @ p @ '': no such file or directory''))
      | Some b \<Rightarrow> Inr (FileReader b))"

text \<open>
  inMemoryOnceMount.Fetch. The flag is swapped to true only when the buffer is there
  (\<open>&&\<close> short-circuits); the old value false takes the in-memory branch, which drops
  the buffer.
\<close>
definition Fetch :: "filesystem \<Rightarrow> inMemoryOnceMount \<Rightarrow> (err + Reader) \<times> inMemoryOnceMount" where
  "Fetch fs m =
     (case buf m of
        None \<Rightarrow> (FileMount_Fetch fs (Path m), m)
      | Some b \<Rightarrow>
          if \<not> readOnce m
          then (Inr (inMemoryReader b), m\<lparr>buf := None, readOnce := True\<rparr>)
          else (FileMount_Fetch fs (Path m), m\<lparr>readOnce := True\<rparr>))"

text \<open>
  The mount after a run of fetches, one for each filesystem of the list (the files may
  change between two fetches), whatever the fetches return.
\<close>
fun Fetch_seq :: "filesystem list \<Rightarrow> inMemoryOnceMount \<Rightarrow> inMemoryOnceMount" where
  "Fetch_seq [] m = m"
| "Fetch_seq (fs # fss) m = Fetch_seq fss (snd (Fetch fs m))"

subsection \<open>What the calls leave behind, and what the environment answers\<close>

text \<open>A call that leaves store.go, a goroutine it starts, or a line it logs.\<close>
datatype event =
    EvGetShardInfo Key
  | EvOpenFile string
  | EvWriteFile string bytes
  | EvCloseFile string
  | EvRegisterShard Key
  | EvAcquireShard Key
  | EvDestroyShard Key
  | EvDropFullIndex Key
  | EvRemoveFile string
  | EvLock nat
  | EvUnlock nat
  | EvLogWarn string
  | EvLogError string
  | EvGo_trackLateResult string Duration
  | EvGo_gc
  | EvDagStart
  | EvIndexClose
  | EvDagClose
  | EvCancel

text \<open>
  The case a \<open>select\<close> over the caller's context and the result channel takes: the
  context is done first (with \<open>ctx.Err()\<close>), or the ShardResult arrives first (with its
  Error field).
\<close>
datatype select_case = CtxDone err | ResultArrived "err option"

text \<open>The constructors that NewStore calls, in its order.\<close>
datatype NewStore_step =
    SetupPath
  | RegisterMount
  | NewFSRepo
  | NewInvertedIndex
  | NewDAGStore
  | NewBlockstoreCache

text \<open>
  The answers of the environment to one call of a facade function: the failures that the
  filesystem, the lifecycle manager and the index may report whatever the store's state is,
  and the case each \<open>select\<close> takes.
\<close>
record env =
  gsi_err :: "err option"
  open_err :: "err option"
  copy_err :: "(nat \<times> err) option"
  init_err :: "err option"
  chosen :: select_case
  blockstore_err :: "err option"
  evicted :: "Key option"
  drop_res :: "bool \<times> err option"
  rm_err :: "err option"
  new_err :: "(NewStore_step \<times> err) option"
  dag_start_err :: "err option"
  idx_close_err :: "err option"
  dag_close_err :: "err option"

text \<open>The environment in which nothing fails and every result arrives before the context is done.\<close>
definition env_ok :: env where
  "env_ok =
     \<lparr>gsi_err = None, open_err = None, copy_err = None, init_err = None,
      chosen = ResultArrived None, blockstore_err = None, evicted = None,
      drop_res = (True, None), rm_err = None, new_err = None, dag_start_err = None,
      idx_close_err = None, dag_close_err = None\<rparr>"

subsection \<open>The lifecycle manager\<close>

datatype ShardState =
    ShardStateNew
  | ShardStateInitializing
  | ShardStateAvailable
  | ShardStateServing
  | ShardStateRecovering
  | ShardStateErrored
  | ShardStateUnknown

text \<open>dagstore.ShardInfo, as far as store.go reads it.\<close>
record ShardInfo =
  State :: ShardState
  Error :: "err option"

text \<open>The zero value \<open>ShardInfo{}\<close>.\<close>
definition ShardInfo_zero :: ShardInfo where
  "ShardInfo_zero = \<lparr>State = ShardStateNew, Error = None\<rparr>"

text \<open>A shard of the registry: its mount, its state and its stored error.\<close>
record Shard =
  sh_mount :: inMemoryOnceMount
  sh_state :: ShardState
  sh_err :: "err option"

type_synonym DAGStore = "Key \<rightharpoonup> Shard"

text \<open>
  Modelled from the spec: DAGStore.GetShardInfo of the dagstore library, "queries the
  Lifecycle Manager's registry" (section 4.4, Has) and may fail with "genuine I/O errors on
  the registry" (section 7). A key that is not registered gives the zero ShardInfo and
  ErrShardUnknown.
\<close>
definition GetShardInfo :: "env \<Rightarrow> DAGStore \<Rightarrow> Key \<Rightarrow> ShardInfo \<times> err option" where
  "GetShardInfo en d k =
     (case gsi_err en of
        Some e \<Rightarrow> (ShardInfo_zero, Some e)
      | None \<Rightarrow>
          (case d k of
             None \<Rightarrow> (ShardInfo_zero, Some ErrShardUnknown)
           | Some sh \<Rightarrow> (\<lparr>State = sh_state sh, Error = sh_err sh\<rparr>, None)))"

text \<open>
  Modelled from the spec: DAGStore.RegisterShard, section 4.1 "register(key, mount)": it
  "fails with AlreadyExists if key is already registered (including mid-registration or
  errored)", and otherwise enters the shard in the registry and starts indexing. The error
  names the key and wraps ErrShardExists.
\<close>
definition RegisterShard :: "env \<Rightarrow> DAGStore \<Rightarrow> Key \<Rightarrow> inMemoryOnceMount \<Rightarrow> err option \<times> DAGStore" where
  "RegisterShard en d k m =
     (case d k of
        Some sh \<Rightarrow> (Some (Errorf (Key_String k) ErrShardExists), d)
      | None \<Rightarrow>
          (case init_err en of
             Some e \<Rightarrow> (Some e, d)
           | None \<Rightarrow> (None, d(k \<mapsto> \<lparr>sh_mount = m, sh_state = ShardStateInitializing, sh_err = None\<rparr>))))"

text \<open>
  Modelled from the spec: the end of a registration, section 4.1: indexing reads "the
  mount's contents" (one Fetch) and "transitions the shard to Available"; a failed
  registration leaves the shard "in Errored, visible via Has/List" (section 7).
\<close>
definition register_result :: "filesystem \<Rightarrow> DAGStore \<Rightarrow> Key \<Rightarrow> err option \<Rightarrow> DAGStore" where
  "register_result fs d k r =
     (case d k of
        None \<Rightarrow> d
      | Some sh \<Rightarrow>
          (case r of
             Some e \<Rightarrow> d(k \<mapsto> sh\<lparr>sh_state := ShardStateErrored, sh_err := Some e\<rparr>)
           | None \<Rightarrow>
               d(k \<mapsto> sh\<lparr>sh_mount := snd (Fetch fs (sh_mount sh)), sh_state := ShardStateAvailable\<rparr>)))"

text \<open>
  dagstore.ShardAccessor: the reader that the shard's mount gave, and the shard's key.
  \<open>Reader()\<close> is the field \<open>data\<close>, "positioned at the shard start" (section 4.4).
\<close>
record ShardAccessor =
  data :: Reader
  shard_key :: Key

text \<open>
  Modelled from the spec: DAGStore.AcquireShard, section 4.1 "acquire(key)": it "fails with
  Unknown if the key was never registered or has been destroyed"; the error names the key
  and wraps ErrShardUnknown.
\<close>
definition AcquireShard :: "env \<Rightarrow> DAGStore \<Rightarrow> Key \<Rightarrow> err option" where
  "AcquireShard en d k =
     (case d k of
        None \<Rightarrow> Some (Errorf (Key_String k) ErrShardUnknown)
      | Some sh \<Rightarrow> init_err en)"

text \<open>
  Modelled from the spec: the ShardResult of an acquisition, section 4.1: an accessor over
  the shard's byte source (a Fetch of its mount), or a "ResourceError propagating the
  underlying I/O failure": the one the environment reports or the one of the Fetch.
\<close>
definition acquire_result ::
    "filesystem \<Rightarrow> DAGStore \<Rightarrow> Key \<Rightarrow> err option \<Rightarrow> (err + ShardAccessor) \<times> DAGStore" where
  "acquire_result fs d k r =
     (case r of
        Some e \<Rightarrow> (Inl e, d)
      | None \<Rightarrow>
          (case d k of
             None \<Rightarrow> (Inl ErrShardUnknown, d)
           | Some sh \<Rightarrow>
               (case Fetch fs (sh_mount sh) of
                  (Inl e, m') \<Rightarrow> (Inl e, d(k \<mapsto> sh\<lparr>sh_mount := m'\<rparr>))
                | (Inr rd, m') \<Rightarrow>
                    (Inr \<lparr>data = rd, shard_key = k\<rparr>,
                     d(k \<mapsto> sh\<lparr>sh_mount := m', sh_state := ShardStateServing\<rparr>)))))"

text \<open>
  Modelled from the spec: DAGStore.DestroyShard, section 4.1 "destroy(key)": it "fails if
  the shard does not exist".
\<close>
definition DestroyShard :: "env \<Rightarrow> DAGStore \<Rightarrow> Key \<Rightarrow> err option" where
  "DestroyShard en d k =
     (case d k of
        None \<Rightarrow> Some ErrShardUnknown
      | Some sh \<Rightarrow> init_err en)"

text \<open>
  Modelled from the spec: the ShardResult of a destruction, section 4.1: success "removes
  the shard from the registry"; a failure leaves the registry as it is.
\<close>
definition destroy_result :: "DAGStore \<Rightarrow> Key \<Rightarrow> err option \<Rightarrow> DAGStore" where
  "destroy_result d k r = (case r of Some e \<Rightarrow> d | None \<Rightarrow> d(k := None))"

subsection \<open>The accessor cache\<close>

text \<open>The block view that \<open>accessor.Blockstore()\<close> builds over an accessor.\<close>
datatype ReadBlockstore = Blockstore_of ShardAccessor

record accessorWithBlockstore =
  sa :: ShardAccessor
  bs :: ReadBlockstore

text \<open>The view of a cache as a partial function from keys.\<close>
type_synonym blockstoreCache = "Key \<rightharpoonup> accessorWithBlockstore"

text \<open>The entries that the cache holds, the one added last first.\<close>
type_synonym cache_entries = "(Key \<times> accessorWithBlockstore) list"

text \<open>
  Modelled from the spec: blockstoreCache.unsafeGet (accessor_cache.go, not among the
  sources), section 4.2: it "checks a local cache; on hit, returns the cached accessor";
  a miss is the error errCacheMiss that store.go tests for.
\<close>
definition unsafeGet :: "cache_entries \<Rightarrow> Key \<Rightarrow> accessorWithBlockstore option \<times> err option" where
  "unsafeGet c k =
     (case map_of c k of None \<Rightarrow> (None, Some errCacheMiss) | Some a \<Rightarrow> (Some a, None))"

text \<open>
  Modelled from the spec: blockstoreCache.unsafeAdd (accessor_cache.go, not among the
  sources), section 4.2: it "inserts the result into the cache (evicting per policy if at
  capacity), and returns it", with "at most one accessor handle cached per shard key"
  (section 3): the new entry takes the place of an entry of the same key. The key that the
  policy evicts, if any, is the environment's; the block view of the accessor may fail to
  open.
\<close>
definition unsafeAdd ::
    "env \<Rightarrow> cache_entries \<Rightarrow> Key \<Rightarrow> ShardAccessor \<Rightarrow> (err + accessorWithBlockstore) \<times> cache_entries" where
  "unsafeAdd en c k a =
     (case blockstore_err en of
        Some e \<Rightarrow> (Inl (Errorf ''failed to get blockstore from accessor'' e), c)
      | None \<Rightarrow>
          (let newAccessor = \<lparr>sa = a, bs = Blockstore_of a\<rparr>
           in (Inr newAccessor,
               (k, newAccessor) # filter (\<lambda>(k', a'). k' \<noteq> k \<and> Some k' \<noteq> evicted en) c)))"

subsection \<open>The store\<close>

datatype CancelFunc = CancelRunCtx

text \<open>
  The fields of Store that the functions below read or write, with the files of the host
  and the trace of the calls made so far. \<open>cancel\<close> is nil until Start sets it, and so is
  the pointer \<open>lastGCResult\<close> to the shards of the last GCResult. \<open>cache_lru\<close> holds the
  entries of the field \<open>cache\<close>.
\<close>
record Store =
  cancel :: "CancelFunc option"
  dgstr :: DAGStore
  cache_lru :: cache_entries
  basepath :: string
  gcInterval :: Duration
  lastGCResult :: "(Key \<rightharpoonup> err option) option"
  files :: filesystem
  trace :: "event list"

text \<open>The accessor that the store's cache holds for a key, if any.\<close>
definition cache :: "Store \<Rightarrow> blockstoreCache" where
  "cache s = map_of (cache_lru s)"

text \<open>header.DataAvailabilityHeader: the row roots and the column roots.\<close>
record DataAvailabilityHeader =
  RowRoots :: "bytes list"
  ColumnRoots :: "bytes list"

text \<open>
  What store.go takes from other packages as functions: the codec (WriteEDS and ReadEDS of
  this package's eds.go), carv1.ReadHeader giving the header's root CIDs,
  ipld.NamespacedSha256FromCID, DataAvailabilityHeader.Hash, and the hash of a key and the
  number of striped locks of the accessor cache. A CID is kept as its bytes.
\<close>
record 'sq ext =
  WriteEDS :: "'sq \<Rightarrow> err + bytes"
  ReadEDS :: "bytes \<Rightarrow> DataHash \<Rightarrow> err + 'sq"
  Flattened :: "'sq \<Rightarrow> bytes list"
  ReadHeader :: "bytes \<Rightarrow> err + bytes list"
  NamespacedSha256FromCID :: "bytes \<Rightarrow> bytes"
  DAH_Hash :: "DataAvailabilityHeader \<Rightarrow> bytes"
  keyHash :: "Key \<Rightarrow> nat"
  stripes :: nat

text \<open>
  Modelled from the spec: shardKeyToStriped (accessor_cache.go, not among the sources),
  section 4.2: the lock of a key is the one "striped by hash(key) mod N (N fixed)".
\<close>
definition shardKeyToStriped :: "'sq ext \<Rightarrow> Key \<Rightarrow> nat" where
  "shardKeyToStriped x key = keyHash x key mod stripes x"

text \<open>Appending to the trace.\<close>
definition emit :: "event list \<Rightarrow> Store \<Rightarrow> Store" where
  "emit evs s = s\<lparr>trace := trace s @ evs\<rparr>"

text \<open>
  Store.has: the switch compares the error of GetShardInfo with \<open>==\<close>; in the unknown case
  it returns what the info's Error field holds.
\<close>
definition Store_has :: "env \<Rightarrow> Store \<Rightarrow> DataHash \<Rightarrow> (bool \<times> err option) \<times> Store" where
  "Store_has en s root =
     (let key = DataHash_String root;
          (info, err) = GetShardInfo en (dgstr s) (KeyFromString key);
          s' = emit [EvGetShardInfo (KeyFromString key)] s
      in case err of
           None \<Rightarrow> ((True, Error info), s')
         | Some e \<Rightarrow>
             if e = ErrShardUnknown then ((False, Error info), s')
             else ((False, Some e), s'))"

text \<open>Store.Has: has between a span and a metric.\<close>
definition Store_Has :: "env \<Rightarrow> Store \<Rightarrow> DataHash \<Rightarrow> (bool \<times> err option) \<times> Store" where
  "Store_Has en s root = Store_has en s root"

text \<open>
  os.OpenFile with O_CREATE|O_WRONLY: a file that is not there is created empty, a file that
  is there keeps its bytes (no O_TRUNC); the write offset is 0.
\<close>
definition OpenFile :: "env \<Rightarrow> Store \<Rightarrow> string \<Rightarrow> err option \<times> Store" where
  "OpenFile en s p =
     (case open_err en of
        Some e \<Rightarrow> (Some e, emit [EvOpenFile p] s)
      | None \<Rightarrow>
          (None, emit [EvOpenFile p]
                   (s\<lparr>files := (files s)(p \<mapsto> (case files s p of None \<Rightarrow> [] | Some old \<Rightarrow> old))\<rparr>)))"

text \<open>Bytes written from offset 0 over the bytes a file holds.\<close>
definition overwrite :: "bytes \<Rightarrow> bytes \<Rightarrow> bytes" where
  "overwrite new old = new @ drop (length new) old"

text \<open>
  inMemoryOnceMount.WriteTo on the open file: io.Copy of the buffer's bytes. When the copy
  fails after \<open>n\<close> bytes, those bytes are in the file.
\<close>
definition WriteTo :: "env \<Rightarrow> bytes \<Rightarrow> Store \<Rightarrow> string \<Rightarrow> err option \<times> Store" where
  "WriteTo en b s p =
     (let old = (case files s p of None \<Rightarrow> [] | Some old \<Rightarrow> old)
      in case copy_err en of
           Some (n, e) \<Rightarrow>
             (Some e, emit [EvWriteFile p (take n b)]
                        (s\<lparr>files := (files s)(p \<mapsto> overwrite (take n b) old)\<rparr>))
         | None \<Rightarrow>
             (None, emit [EvWriteFile p b] (s\<lparr>files := (files s)(p \<mapsto> overwrite b old)\<rparr>)))"

text \<open>
  Store.put. The mount is built with an empty buffer, WriteEDS fills it with the encoded
  square, WriteTo copies it to the file, and the mount is registered under the key. The
  deferred \<open>f.Close()\<close> runs on every return after the file was opened.
\<close>
definition Store_put :: "'sq ext \<Rightarrow> env \<Rightarrow> Store \<Rightarrow> DataHash \<Rightarrow> 'sq \<Rightarrow> err option \<times> Store" where
  "Store_put x en s root square =
     (case Store_Has en s root of
        ((True, _), s0) \<Rightarrow> (Some ErrShardExists, s0)
      | ((False, _), s0) \<Rightarrow>
          (let key = DataHash_String root;
               p = basepath s0 @ blocksPath @ key;
               closing = (\<lambda>(r, t). (r, emit [EvCloseFile p] t))
           in case OpenFile en s0 p of
                (Some e, s1) \<Rightarrow> (Some e, s1)
              | (None, s1) \<Rightarrow>
                  closing
                    (case WriteEDS x square of
                       Inl e \<Rightarrow> (Some (Errorf ''failed to write EDS to file'' e), s1)
                     | Inr b \<Rightarrow>
                         (let mount = \<lparr>buf = Some b, readOnce = False, Path = p\<rparr>
                          in case WriteTo en b s1 p of
                               (Some e, s2) \<Rightarrow> (Some (Errorf ''failed to write EDS to file'' e), s2)
                             | (None, s2) \<Rightarrow>
                                 (case RegisterShard en (dgstr s2) (KeyFromString key) mount of
                                    (Some e, d) \<Rightarrow>
                                      (Some (Errorf ''failed to initiate shard registration'' e),
                                       emit [EvRegisterShard (KeyFromString key)] s2)
                                  | (None, d) \<Rightarrow>
                                      (let s3 = emit [EvRegisterShard (KeyFromString key)] (s2\<lparr>dgstr := d\<rparr>)
                                       in case chosen en of
                                            CtxDone e \<Rightarrow>
                                              (Some e, emit [EvGo_trackLateResult ''put'' (Minute * 5)] s3)
                                          | ResultArrived r \<Rightarrow>
                                              (let s4 = s3\<lparr>dgstr :=
                                                     register_result (files s3) d (KeyFromString key) r\<rparr>
                                               in case r of
                                                    Some e \<Rightarrow> (Some (Errorf ''failed to register shard'' e), s4)
                                                  | None \<Rightarrow> (None, s4))))))))"

text \<open>The label under which Store.Put counts the outcome of put.\<close>
datatype putResult = putOK | putExists | putFailed

definition Put_result :: "err option \<Rightarrow> putResult" where
  "Put_result err =
     (if errors_Is_opt err ErrShardExists then putExists
      else if err \<noteq> None then putFailed
      else putOK)"

text \<open>Store.Put returns what put returns; the label goes to the metrics.\<close>
definition Store_Put :: "'sq ext \<Rightarrow> env \<Rightarrow> Store \<Rightarrow> DataHash \<Rightarrow> 'sq \<Rightarrow> err option \<times> Store" where
  "Store_Put x en s root square = Store_put x en s root square"

text \<open>The outcome that trackLateResult reports to the metrics.\<close>
datatype longOp = longOpUnresolved | longOpOK | longOpFailed

text \<open>
  What trackLateResult leaves behind: a metric observation, or a log line, which for a
  failed operation carries the error of the result.
\<close>
datatype tracked = ObserveLongOp string longOp | LogError string "err option" | LogWarn string

text \<open>
  trackLateResult, started as a goroutine. \<open>arrival\<close> tells when, counted from the start
  of the tracker, the result comes out of the channel, if it ever does. The tracker takes
  the result when it is there before \<open>maxWait\<close> has passed, and the timer otherwise. It
  returns how long it waited and what it reported.
\<close>
definition trackLateResult ::
    "string \<Rightarrow> (Duration \<times> err option) option \<Rightarrow> Duration \<Rightarrow> Duration \<times> tracked list" where
  "trackLateResult opName arrival maxWait =
     (let unresolved =
            (maxWait,
             [ObserveLongOp opName longOpUnresolved,
              LogError ''parent context is expired, while register shard is stuck'' None]) in
      case arrival of
        None \<Rightarrow> unresolved
      | Some (t, r) \<Rightarrow>
          if maxWait \<le> t then unresolved
          else if t < Second then (t, [])
          else
            (case r of
               Some e \<Rightarrow>
                 (t, [ObserveLongOp opName longOpFailed,
                      LogError ''failed to register shard after context expired'' (Some e)])
             | None \<Rightarrow>
                 (t, [ObserveLongOp opName longOpOK,
                      LogWarn ''parent context expired, but register shard finished with no error''])))"

text \<open>
  Store.getAccessor: an error of AcquireShard that is ErrShardUnknown becomes ErrNotFound;
  then the select over the result channel and the caller's context.
\<close>
definition Store_getAccessor :: "env \<Rightarrow> Store \<Rightarrow> Key \<Rightarrow> (err + ShardAccessor) \<times> Store" where
  "Store_getAccessor en s key =
     (let s0 = emit [EvAcquireShard key] s
      in case AcquireShard en (dgstr s) key of
           Some e \<Rightarrow>
             if errors_Is e ErrShardUnknown then (Inl ErrNotFound, s0)
             else (Inl (Errorf ''failed to initialize shard acquisition'' e), s0)
         | None \<Rightarrow>
             (case chosen en of
                ResultArrived r \<Rightarrow>
                  (case acquire_result (files s0) (dgstr s0) key r of
                     (Inl e, d) \<Rightarrow> (Inl (Errorf ''failed to acquire shard'' e), s0\<lparr>dgstr := d\<rparr>)
                   | (Inr a, d) \<Rightarrow> (Inr a, s0\<lparr>dgstr := d\<rparr>))
              | CtxDone e \<Rightarrow> (Inl e, emit [EvGo_trackLateResult ''get_shard'' Minute] s0)))"

text \<open>
  Store.getCachedAccessor: under the striped lock of the key, the cached accessor when
  there is one, otherwise an acquisition whose result goes into the cache. The deferred
  Unlock runs on every return.
\<close>
definition Store_getCachedAccessor ::
    "'sq ext \<Rightarrow> env \<Rightarrow> Store \<Rightarrow> Key \<Rightarrow> (err + accessorWithBlockstore) \<times> Store" where
  "Store_getCachedAccessor x en s key =
     (let lk = shardKeyToStriped x key;
          s0 = emit [EvLock lk] s;
          unlocking = (\<lambda>(r, t). (r, emit [EvUnlock lk] t));
          (accessor, err) = unsafeGet (cache_lru s0) key;
          s1 = (if err \<noteq> None \<and> err \<noteq> Some errCacheMiss
                then emit [EvLogError ''unexpected error while reading key from bs cache''] s0
                else s0)
      in unlocking
           (case accessor of
              Some a \<Rightarrow> (Inr a, s1)
            | None \<Rightarrow>
                (case Store_getAccessor en s1 key of
                   (Inl e, s2) \<Rightarrow> (Inl e, s2)
                 | (Inr shardAccessor, s2) \<Rightarrow>
                     (case unsafeAdd en (cache_lru s2) key shardAccessor of
                        (Inl e, c) \<Rightarrow> (Inl e, s2\<lparr>cache_lru := c\<rparr>)
                      | (Inr a, c) \<Rightarrow> (Inr a, s2\<lparr>cache_lru := c\<rparr>)))))"

text \<open>Store.getCAR and its wrapper GetCAR: the reader of the cached accessor.\<close>
definition Store_getCAR :: "'sq ext \<Rightarrow> env \<Rightarrow> Store \<Rightarrow> DataHash \<Rightarrow> (err + Reader) \<times> Store" where
  "Store_getCAR x en s root =
     (let key = DataHash_String root
      in case Store_getCachedAccessor x en s (KeyFromString key) of
           (Inl e, s') \<Rightarrow> (Inl (Errorf ''failed to get accessor'' e), s')
         | (Inr accessor, s') \<Rightarrow> (Inr (data (sa accessor)), s'))"

definition Store_GetCAR :: "'sq ext \<Rightarrow> env \<Rightarrow> Store \<Rightarrow> DataHash \<Rightarrow> (err + Reader) \<times> Store" where
  "Store_GetCAR x en s root = Store_getCAR x en s root"

text \<open>Store.carBlockstore and its wrapper CARBlockstore: the block view of the cached accessor.\<close>
definition Store_carBlockstore ::
    "'sq ext \<Rightarrow> env \<Rightarrow> Store \<Rightarrow> DataHash \<Rightarrow> (err + ReadBlockstore) \<times> Store" where
  "Store_carBlockstore x en s root =
     (let key = KeyFromString (DataHash_String root)
      in case Store_getCachedAccessor x en s key of
           (Inl e, s') \<Rightarrow> (Inl (Errorf ''eds/store: failed to get accessor'' e), s')
         | (Inr accessor, s') \<Rightarrow> (Inr (bs accessor), s'))"

definition Store_CARBlockstore ::
    "'sq ext \<Rightarrow> env \<Rightarrow> Store \<Rightarrow> DataHash \<Rightarrow> (err + ReadBlockstore) \<times> Store" where
  "Store_CARBlockstore x en s root = Store_carBlockstore x en s root"

text \<open>
  dahFromCARHeader: the digests of the header's root CIDs, in the header's order, cut at
  half the number of roots (integer division).
\<close>
definition dahFromCARHeader :: "'sq ext \<Rightarrow> bytes list \<Rightarrow> DataAvailabilityHeader" where
  "dahFromCARHeader x Roots =
     (let rootCount = length Roots;
          rootBytes = map (NamespacedSha256FromCID x) Roots
      in \<lparr>RowRoots = take (rootCount div 2) rootBytes,
          ColumnRoots = drop (rootCount div 2) rootBytes\<rparr>)"

text \<open>
  Store.getDAH and its wrapper GetDAH: the CAR header is read from the accessor's reader, and
  the header built from it is returned when its hash is the root asked for.
\<close>
definition Store_getDAH ::
    "'sq ext \<Rightarrow> env \<Rightarrow> Store \<Rightarrow> DataHash \<Rightarrow> (err + DataAvailabilityHeader) \<times> Store" where
  "Store_getDAH x en s root =
     (let key = KeyFromString (DataHash_String root)
      in case Store_getCachedAccessor x en s key of
           (Inl e, s') \<Rightarrow> (Inl (Errorf ''eds/store: failed to get accessor'' e), s')
         | (Inr accessor, s') \<Rightarrow>
             (case ReadHeader x (Reader_bytes (data (sa accessor))) of
                Inl e \<Rightarrow> (Inl (Errorf ''eds/store: failed to read car header'' e), s')
              | Inr carHeader \<Rightarrow>
                  (let dah = dahFromCARHeader x carHeader
                   in if DAH_Hash x dah \<noteq> root
                      then (Inl (Failure (''eds/store: content integrity mismatch from CAR for root ''
                                            @ hex_lower root)), s')
                      else (Inr dah, s'))))"

definition Store_GetDAH ::
    "'sq ext \<Rightarrow> env \<Rightarrow> Store \<Rightarrow> DataHash \<Rightarrow> (err + DataAvailabilityHeader) \<times> Store" where
  "Store_GetDAH x en s root = Store_getDAH x en s root"

text \<open>
  Store.remove: DestroyShard and the select on its result, then DropFullIndex, then
  os.Remove of the shard's file.
\<close>
definition Store_remove :: "env \<Rightarrow> Store \<Rightarrow> DataHash \<Rightarrow> err option \<times> Store" where
  "Store_remove en s root =
     (let key = DataHash_String root;
          s0 = emit [EvDestroyShard (KeyFromString key)] s
      in case DestroyShard en (dgstr s) (KeyFromString key) of
           Some e \<Rightarrow> (Some (Errorf ''failed to initiate shard destruction'' e), s0)
         | None \<Rightarrow>
             (case chosen en of
                CtxDone e \<Rightarrow> (Some e, emit [EvGo_trackLateResult ''remove'' Minute] s0)
              | ResultArrived (Some e) \<Rightarrow> (Some (Errorf ''failed to destroy shard'' e), s0)
              | ResultArrived None \<Rightarrow>
                  (let s1 = s0\<lparr>dgstr := destroy_result (dgstr s0) (KeyFromString key) None\<rparr>;
                       (dropped, err) = drop_res en;
                       s2 = emit [EvDropFullIndex (KeyFromString key)] s1;
                       s3 = (if \<not> dropped then emit [EvLogWarn (''failed to drop index for '' @ key)] s2
                             else s2)
                   in case err of
                        Some e \<Rightarrow> (Some (Errorf (''failed to drop index for '' @ key) e), s3)
                      | None \<Rightarrow>
                          (let p = basepath s3 @ blocksPath @ key;
                               s4 = emit [EvRemoveFile p] s3
                           in case rm_err en of
                                Some e \<Rightarrow> (Some (Errorf ''failed to remove CAR file'' e), s4)
                              | None \<Rightarrow> (None, s4\<lparr>files := (files s4)(p := None)\<rparr>)))))"

definition Store_Remove :: "env \<Rightarrow> Store \<Rightarrow> DataHash \<Rightarrow> err option \<times> Store" where
  "Store_Remove en s root = Store_remove en s root"

text \<open>Store.get and its wrapper Get: the CAR reader, decoded by ReadEDS against the root.\<close>
definition Store_get :: "'sq ext \<Rightarrow> env \<Rightarrow> Store \<Rightarrow> DataHash \<Rightarrow> (err + 'sq) \<times> Store" where
  "Store_get x en s root =
     (case Store_GetCAR x en s root of
        (Inl e, s') \<Rightarrow> (Inl (Errorf ''failed to get CAR file'' e), s')
      | (Inr f, s') \<Rightarrow>
          (case ReadEDS x (Reader_bytes f) root of
             Inl e \<Rightarrow> (Inl (Errorf ''failed to read EDS from CAR file'' e), s')
           | Inr eds \<Rightarrow> (Inr eds, s')))"

definition Store_Get :: "'sq ext \<Rightarrow> env \<Rightarrow> Store \<Rightarrow> DataHash \<Rightarrow> (err + 'sq) \<times> Store" where
  "Store_Get x en s root = Store_get x en s root"

text \<open>
  NewStore: the first constructor that fails ends it with its message; otherwise the struct
  literal, which sets no \<open>cancel\<close>, over an empty lifecycle manager and an empty cache.
\<close>
definition NewStore_message :: "NewStore_step \<Rightarrow> string" where
  "NewStore_message st =
     (case st of
        SetupPath \<Rightarrow> ''failed to setup eds.Store directories''
      | RegisterMount \<Rightarrow> ''failed to register memory mount on the registry''
      | NewFSRepo \<Rightarrow> ''failed to create index repository''
      | NewInvertedIndex \<Rightarrow> ''failed to create index''
      | NewDAGStore \<Rightarrow> ''failed to create DAGStore''
      | NewBlockstoreCache \<Rightarrow> ''failed to create blockstore cache'')"

definition NewStore :: "env \<Rightarrow> string \<Rightarrow> filesystem \<Rightarrow> err + Store" where
  "NewStore en bp fs =
     (case new_err en of
        Some (st, e) \<Rightarrow> Inl (Errorf (NewStore_message st) e)
      | None \<Rightarrow>
          Inr \<lparr>cancel = None, dgstr = Map.empty, cache_lru = [], basepath = bp,
               gcInterval = defaultGCInterval, lastGCResult = None, files = fs, trace = []\<rparr>)"

text \<open>
  Store.Start: when the lifecycle manager starts, the cancel function of a fresh context is
  stored, an empty GC result is stored, and the gc goroutine is started if the interval is
  not 0.
\<close>
definition Store_Start :: "env \<Rightarrow> Store \<Rightarrow> err option \<times> Store" where
  "Store_Start en s =
     (case dag_start_err en of
        Some e \<Rightarrow> (Some e, emit [EvDagStart] s)
      | None \<Rightarrow>
          (let s1 = (emit [EvDagStart] s)\<lparr>cancel := Some CancelRunCtx, lastGCResult := Some Map.empty\<rparr>
           in (None, if gcInterval s1 \<noteq> 0 then emit [EvGo_gc] s1 else s1)))"

text \<open>A call returns a value or panics.\<close>
datatype 'a outcome = Returned 'a | Panicked

text \<open>
  Store.Stop. \<open>defer s.cancel()\<close> takes the function value when the defer statement runs and
  calls it when Stop returns: a nil function panics at that call, after the body has run.
\<close>
definition Store_Stop :: "env \<Rightarrow> Store \<Rightarrow> err option outcome \<times> Store" where
  "Store_Stop en s =
     (let deferred = cancel s;
          (r, s1) = (case idx_close_err en of
                       Some e \<Rightarrow> (Some e, emit [EvIndexClose] s)
                     | None \<Rightarrow> (dag_close_err en, emit [EvIndexClose, EvDagClose] s))
      in case deferred of
           None \<Rightarrow> (Panicked, s1)
         | Some f \<Rightarrow> (Returned r, emit [EvCancel] s1))"

subsection \<open>Calls of getCachedAccessor that run at the same time\<close>

text \<open>
  Where a call of getCachedAccessor stands: before the Lock, before unsafeGet, before
  getAccessor, before unsafeAdd with the accessor it acquired, before the deferred Unlock
  with its result, or returned with it.
\<close>
datatype call_pc =
    AtLock
  | AtGet
  | AtAcquire
  | AtAdd ShardAccessor
  | AtUnlock "err + accessorWithBlockstore"
  | Returned_with "err + accessorWithBlockstore"

text \<open>A call: its key, the answers of the environment to it, and where it stands.\<close>
record call =
  call_key :: Key
  call_env :: env
  call_pc :: call_pc

text \<open>
  The store that the calls share, the striped locks that are held, and the calls.
\<close>
record shared_store =
  shared :: Store
  held :: "nat set"
  calls :: "call list"

text \<open>A call is in its critical section from the Lock it took to its Unlock.\<close>
definition in_section :: "call_pc \<Rightarrow> bool" where
  "in_section p = (case p of AtLock \<Rightarrow> False | Returned_with r \<Rightarrow> False | _ \<Rightarrow> True)"

text \<open>A call is acquiring from the miss of unsafeGet to its unsafeAdd.\<close>
definition acquiring :: "call_pc \<Rightarrow> bool" where
  "acquiring p = (case p of AtAcquire \<Rightarrow> True | AtAdd a \<Rightarrow> True | _ \<Rightarrow> False)"

text \<open>
  One statement of Store.getCachedAccessor, run by call \<open>i\<close> on the shared store. The
  statements are those of the function, in its order; Lock can be taken only when the
  mutex of the stripe is free (the step is not there otherwise), and a call that has
  returned has no step.
\<close>
definition call_step :: "'sq ext \<Rightarrow> nat \<Rightarrow> shared_store \<Rightarrow> shared_store option" where
  "call_step x i c =
     (if length (calls c) \<le> i then None
      else
        (let t = calls c ! i;
             key = call_key t;
             en = call_env t;
             lk = shardKeyToStriped x key;
             s = shared c;
             at = (\<lambda>p. (calls c)[i := t\<lparr>call_pc := p\<rparr>])
         in case call_pc t of
              AtLock \<Rightarrow>
                if lk \<in> held c then None
                else Some \<lparr>shared = emit [EvLock lk] s, held = insert lk (held c),
                           calls = at AtGet\<rparr>
            | AtGet \<Rightarrow>
                (let (accessor, err) = unsafeGet (cache_lru s) key;
                     s1 = (if err \<noteq> None \<and> err \<noteq> Some errCacheMiss
                           then emit [EvLogError ''unexpected error while reading key from bs cache''] s
                           else s)
                 in Some \<lparr>shared = s1, held = held c,
                           calls = at (case accessor of
                                         Some a \<Rightarrow> AtUnlock (Inr a)
                                       | None \<Rightarrow> AtAcquire)\<rparr>)
            | AtAcquire \<Rightarrow>
                (case Store_getAccessor en s key of
                   (Inl e, s2) \<Rightarrow> Some \<lparr>shared = s2, held = held c, calls = at (AtUnlock (Inl e))\<rparr>
                 | (Inr a, s2) \<Rightarrow> Some \<lparr>shared = s2, held = held c, calls = at (AtAdd a)\<rparr>)
            | AtAdd a \<Rightarrow>
                (case unsafeAdd en (cache_lru s) key a of
                   (r, c') \<Rightarrow>
                     Some \<lparr>shared = s\<lparr>cache_lru := c'\<rparr>, held = held c, calls = at (AtUnlock r)\<rparr>)
            | AtUnlock r \<Rightarrow>
                Some \<lparr>shared = emit [EvUnlock lk] s, held = held c - {lk},
                      calls = at (Returned_with r)\<rparr>
            | Returned_with r \<Rightarrow> None))"

text \<open>
  A schedule names, step by step, the call that runs next; a call that cannot take its
  step (it waits for its lock, or it has returned) leaves the state as it is.
\<close>
fun run :: "'sq ext \<Rightarrow> nat list \<Rightarrow> shared_store \<Rightarrow> shared_store" where
  "run x [] c = c"
| "run x (i # sched) c = run x sched (case call_step x i c of None \<Rightarrow> c | Some c' \<Rightarrow> c')"

text \<open>The calls as they are made on a store: no lock is held, each call is before its Lock.\<close>
definition start :: "Store \<Rightarrow> (Key \<times> env) list \<Rightarrow> shared_store" where
  "start s ks =
     \<lparr>shared = s, held = {},
      calls = map (\<lambda>(k, en). \<lparr>call_key = k, call_env = en, call_pc = AtLock\<rparr>) ks\<rparr>"

text \<open>
  Serialisation under the striped locks: a call in its critical section holds the lock of
  its stripe; two calls in their critical sections have different stripes, so never the
  same key; and a call that is acquiring a shard has found no accessor cached for its key
  and none has been cached since.
\<close>
definition serialized :: "'sq ext \<Rightarrow> shared_store \<Rightarrow> bool" where
  "serialized x c =
     ((\<forall>i < length (calls c).
         in_section (call_pc (calls c ! i)) \<longrightarrow>
           shardKeyToStriped x (call_key (calls c ! i)) \<in> held c) \<and>
      (\<forall>i < length (calls c). \<forall>j < length (calls c).
         i \<noteq> j \<and> in_section (call_pc (calls c ! i)) \<and> in_section (call_pc (calls c ! j)) \<longrightarrow>
           shardKeyToStriped x (call_key (calls c ! i)) \<noteq> shardKeyToStriped x (call_key (calls c ! j))) \<and>
      (\<forall>i < length (calls c).
         acquiring (call_pc (calls c ! i)) \<longrightarrow> cache (shared c) (call_key (calls c ! i)) = None))"

subsection \<open>Notions used in the statements\<close>

text \<open>The shard key and the file path that the facade derives from a root.\<close>
definition key_of :: "DataHash \<Rightarrow> Key" where
  "key_of root = KeyFromString (DataHash_String root)"

definition path_of :: "Store \<Rightarrow> DataHash \<Rightarrow> string" where
  "path_of s root = basepath s @ blocksPath @ DataHash_String root"

text \<open>The events that a call added to the trace: those of \<open>s'\<close> after those of \<open>s\<close>.\<close>
definition new_events :: "Store \<Rightarrow> Store \<Rightarrow> event list" where
  "new_events s s' = drop (length (trace s)) (trace s')"

definition is_acquire :: "event \<Rightarrow> bool" where
  "is_acquire ev = (case ev of EvAcquireShard k \<Rightarrow> True | _ \<Rightarrow> False)"

text \<open>A call failed with an error that \<open>errors.Is\<close> recognises as the target.\<close>
definition fails_with :: "err + 'a \<Rightarrow> err \<Rightarrow> bool" where
  "fails_with r target = (case r of Inl e \<Rightarrow> errors_Is e target | Inr v \<Rightarrow> False)"

subsection \<open>A small instance\<close>

text \<open>
  A square of one-byte shares, kept as the list of its shares. Its root is the one-byte sum
  of the shares. The encoding is the number of shares followed by the shares; decoding
  reads that many shares, whatever follows them, and compares their root with the one
  expected. The header's roots are the shares themselves.
\<close>
definition toy_root_of :: "bytes \<Rightarrow> DataHash" where
  "toy_root_of sq = [fold (+) sq 0]"

definition toy_ext :: "bytes ext" where
  "toy_ext =
     \<lparr>WriteEDS = (\<lambda>sq. Inr (of_nat (length sq) # sq)),
      ReadEDS = (\<lambda>bs root.
         case bs of
           [] \<Rightarrow> Inl (Failure ''unexpected EOF'')
         | n # rest \<Rightarrow>
             if length rest < unat n then Inl (Failure ''unexpected EOF'')
             else if toy_root_of (take (unat n) rest) \<noteq> root
                  then Inl (Failure ''share: content integrity mismatch'')
                  else Inr (take (unat n) rest)),
      Flattened = map (\<lambda>b. [b]),
      ReadHeader = (\<lambda>bs.
         case bs of
           [] \<Rightarrow> Inl (Failure ''unexpected EOF'')
         | n # rest \<Rightarrow> Inr (map (\<lambda>b. [b]) (take (unat n) rest))),
      NamespacedSha256FromCID = (\<lambda>c. c),
      DAH_Hash = (\<lambda>dah. toy_root_of (concat (RowRoots dah @ ColumnRoots dah))),
      keyHash = (\<lambda>k. length (Key_String k)),
      stripes = 256\<rparr>"

definition toy_square :: bytes where
  "toy_square = [7, 9]"

definition toy_root :: DataHash where
  "toy_root = [16]"

text \<open>A store just made, under the base path \<open>/eds\<close>, with no file.\<close>
definition toy_new :: Store where
  "toy_new =
     \<lparr>cancel = None, dgstr = Map.empty, cache_lru = [], basepath = ''/eds'',
      gcInterval = defaultGCInterval, lastGCResult = None, files = Map.empty, trace = []\<rparr>"

text \<open>
  A started store that holds the shard of the toy square: its file, and the shard with a
  mount whose buffer has been read.
\<close>
definition toy_shard :: Shard where
  "toy_shard =
     \<lparr>sh_mount = \<lparr>buf = None, readOnce = True, Path = ''/eds/blocks/10''\<rparr>,
      sh_state = ShardStateAvailable, sh_err = None\<rparr>"

definition toy_stored :: Store where
  "toy_stored =
     \<lparr>cancel = Some CancelRunCtx, dgstr = [KeyFromString ''10'' \<mapsto> toy_shard],
      cache_lru = [], basepath = ''/eds'', gcInterval = defaultGCInterval,
      lastGCResult = Some Map.empty, files = [''/eds/blocks/10'' \<mapsto> [2, 7, 9]], trace = []\<rparr>"

text \<open>The same store with the shard in the errored state.\<close>
definition toy_errored :: Store where
  "toy_errored =
     toy_stored\<lparr>dgstr := [KeyFromString ''10'' \<mapsto>
        toy_shard\<lparr>sh_state := ShardStateErrored, sh_err := Some (Failure ''indexing failed'')\<rparr>]\<rparr>"




text \<open>The accessor of the toy shard, and the store that has it in its cache.\<close>
definition toy_accessor :: accessorWithBlockstore where
  "toy_accessor =
     \<lparr>sa = \<lparr>data = FileReader [2, 7, 9], shard_key = KeyFromString ''10''\<rparr>,
      bs = Blockstore_of \<lparr>data = FileReader [2, 7, 9], shard_key = KeyFromString ''10''\<rparr>\<rparr>"

definition toy_cached :: Store where
  "toy_cached = toy_stored\<lparr>cache_lru := [(KeyFromString ''10'', toy_accessor)]\<rparr>"

section \<open>Properties\<close>

lemma emit_simps [simp]:
  "trace (emit evs s) = trace s @ evs"
  "files (emit evs s) = files s"
  "dgstr (emit evs s) = dgstr s"
  "cache (emit evs s) = cache s"
  "cache_lru (emit evs s) = cache_lru s"
  "basepath (emit evs s) = basepath s"
  "cancel (emit evs s) = cancel s"
  "gcInterval (emit evs s) = gcInterval s"
  "lastGCResult (emit evs s) = lastGCResult s"
  by (simp_all add: emit_def cache_def)

lemma cache_update_simps [simp]:
  "cache (s\<lparr>cache_lru := c\<rparr>) = map_of c"
  "cache (s\<lparr>dgstr := d\<rparr>) = cache s"
  "cache (s\<lparr>files := f\<rparr>) = cache s"
  "cache (s\<lparr>trace := t\<rparr>) = cache s"
  "cache (s\<lparr>cancel := cf\<rparr>) = cache s"
  "cache (s\<lparr>lastGCResult := g\<rparr>) = cache s"
  by (simp_all add: cache_def)

lemma unsafeGet_cache:
  "unsafeGet (cache_lru s) k
     = (case cache s k of None \<Rightarrow> (None, Some errCacheMiss) | Some a \<Rightarrow> (Some a, None))"
  by (simp add: unsafeGet_def cache_def)

lemma map_of_filter_keys:
  "map_of (filter (\<lambda>(k', a'). P k') c) k = (if P k then map_of c k else None)"
  by (induction c) auto

lemma unsafeAdd_ok:
  "blockstore_err en = None \<Longrightarrow>
     unsafeAdd en c k a
       = (Inr \<lparr>sa = a, bs = Blockstore_of a\<rparr>,
          (k, \<lparr>sa = a, bs = Blockstore_of a\<rparr>)
            # filter (\<lambda>(k', a'). k' \<noteq> k \<and> Some k' \<noteq> evicted en) c)"
  by (simp add: unsafeAdd_def Let_def)

lemma unsafeAdd_lookup:
  "fst (unsafeAdd en c k a) = Inr a' \<Longrightarrow> map_of (snd (unsafeAdd en c k a)) k = Some a'"
  by (auto simp: unsafeAdd_def Let_def split: option.splits)

lemma unsafeAdd_others:
  "k' \<noteq> k \<Longrightarrow> map_of c k' = None \<Longrightarrow> map_of (snd (unsafeAdd en c k a)) k' = None"
  by (auto simp: unsafeAdd_def Let_def map_of_filter_keys split: option.splits)

lemma unsafeAdd_distinct:
  "distinct (map fst c) \<Longrightarrow> distinct (map fst (snd (unsafeAdd en c k a)))"
  by (auto simp: unsafeAdd_def Let_def distinct_map_filter split: option.splits)

lemma new_events_emit [simp]: "new_events s (emit evs s) = evs"
  by (simp add: new_events_def)

lemma toy_key: "key_of toy_root = KeyFromString ''10''"
  by (simp add: key_of_def toy_root_def DataHash_String_def hexString_def hexByte_def)

lemma toy_string: "DataHash_String toy_root = ''10''"
  by (simp add: toy_root_def DataHash_String_def hexString_def hexByte_def)


subsection \<open>The mount\<close>

lemma Fetch_no_buffer:
  "buf m = None \<Longrightarrow> Fetch fs m = (FileMount_Fetch fs (Path m), m)"
  by (simp add: Fetch_def)

lemma Fetch_seq_no_buffer:
  "buf m = None \<Longrightarrow> Fetch_seq fss m = m"
  by (induction fss) (simp_all add: Fetch_no_buffer)

text \<open>
  Claim C9. A mount that holds a buffer and has not been read gives, at its first Fetch, the
  in-memory reader over the buffer's bytes and drops the buffer; after that, however many
  fetches have followed, a Fetch is the FileMount's Fetch of the mount's path. A mount with
  no buffer fetches from the path from the start.
\<close>
theorem inMemoryOnceMount_Fetch_once:
  "(buf m = Some b \<and> \<not> readOnce m \<longrightarrow>
      fst (Fetch fs m) = Inr (inMemoryReader b) \<and>
      buf (snd (Fetch fs m)) = None \<and>
      Path (snd (Fetch fs m)) = Path m \<and>
      (\<forall>fss fs'. Fetch fs' (Fetch_seq fss (snd (Fetch fs m))) =
          (FileMount_Fetch fs' (Path m), snd (Fetch fs m)))) \<and>
   (buf m = None \<longrightarrow>
      (\<forall>fss fs'. Fetch fs' (Fetch_seq fss m) = (FileMount_Fetch fs' (Path m), m)))"
proof (intro conjI impI allI)
  assume a: "buf m = Some b \<and> \<not> readOnce m"
  let ?m' = "snd (Fetch fs m)"
  from a show "fst (Fetch fs m) = Inr (inMemoryReader b)"
    by (simp add: Fetch_def)
  from a show nb: "buf ?m' = None"
    by (simp add: Fetch_def)
  from a show pm: "Path ?m' = Path m"
    by (simp add: Fetch_def)
  fix fss fs'
  from nb have "Fetch_seq fss ?m' = ?m'"
    by (rule Fetch_seq_no_buffer)
  with nb pm show "Fetch fs' (Fetch_seq fss ?m') = (FileMount_Fetch fs' (Path m), ?m')"
    by (simp add: Fetch_no_buffer)
next
  fix fss fs'
  assume nb: "buf m = None"
  then have "Fetch_seq fss m = m"
    by (rule Fetch_seq_no_buffer)
  with nb show "Fetch fs' (Fetch_seq fss m) = (FileMount_Fetch fs' (Path m), m)"
    by (simp add: Fetch_no_buffer)
qed

theorem inMemoryOnceMount_Fetch_once_witness:
  "buf \<lparr>buf = Some [1, 2], readOnce = False, Path = ''/blocks/AB''\<rparr> = Some [1, 2] \<and>
   \<not> readOnce \<lparr>buf = Some [1, 2], readOnce = False, Path = ''/blocks/AB''\<rparr> \<and>
   fst (Fetch Map.empty \<lparr>buf = Some [1, 2], readOnce = False, Path = ''/blocks/AB''\<rparr>)
     = Inr (inMemoryReader [1, 2]) \<and>
   Fetch [''/blocks/AB'' \<mapsto> [1, 2]]
     (Fetch_seq [Map.empty]
        (snd (Fetch Map.empty \<lparr>buf = Some [1, 2], readOnce = False, Path = ''/blocks/AB''\<rparr>)))
     = (Inr (FileReader [1, 2]), \<lparr>buf = None, readOnce = True, Path = ''/blocks/AB''\<rparr>)"
  using inMemoryOnceMount_Fetch_once
    [of "\<lparr>buf = Some [1, 2], readOnce = False, Path = ''/blocks/AB''\<rparr>" "[1, 2]" Map.empty]
  by (simp add: Fetch_def FileMount_Fetch_def)

subsection \<open>Has\<close>

lemma Store_Has_registered:
  "gsi_err en = None \<Longrightarrow> dgstr s (key_of root) = Some sh \<Longrightarrow>
     Store_Has en s root = ((True, sh_err sh), emit [EvGetShardInfo (key_of root)] s)"
  by (simp add: Store_Has_def Store_has_def GetShardInfo_def key_of_def Let_def)

lemma toy_errored_shard:
  "dgstr toy_errored (key_of toy_root)
     = Some (toy_shard\<lparr>sh_state := ShardStateErrored, sh_err := Some (Failure ''indexing failed'')\<rparr>)"
  by (simp add: toy_errored_def toy_key)

text \<open>
  Claim C4. Has returns true together with the stored error of the shard (nil for a healthy
  one) when the shard is registered; false and no error when the registry reports the shard
  as unknown; false and the registry's error when the registry itself fails, and in no
  other case.
\<close>
theorem Store_Has_registry:
  "(gsi_err en = None \<and> dgstr s (key_of root) = Some sh \<longrightarrow>
      fst (Store_Has en s root) = (True, sh_err sh)) \<and>
   (gsi_err en = None \<and> dgstr s (key_of root) = None \<longrightarrow>
      fst (Store_Has en s root) = (False, None)) \<and>
   (gsi_err en = Some ErrShardUnknown \<longrightarrow> fst (Store_Has en s root) = (False, None)) \<and>
   (gsi_err en = Some e \<and> e \<noteq> ErrShardUnknown \<longrightarrow>
      fst (Store_Has en s root) = (False, Some e)) \<and>
   (\<forall>e'. fst (Store_Has en s root) = (False, Some e') \<longrightarrow>
      gsi_err en = Some e' \<and> e' \<noteq> ErrShardUnknown)"
  by (auto simp: Store_Has_def Store_has_def GetShardInfo_def ShardInfo_zero_def key_of_def Let_def
           split: option.splits if_splits)

theorem Store_Has_registry_witness:
  "fst (Store_Has env_ok toy_errored toy_root) = (True, Some (Failure ''indexing failed'')) \<and>
   fst (Store_Has env_ok toy_stored toy_root) = (True, None) \<and>
   fst (Store_Has env_ok toy_new toy_root) = (False, None) \<and>
   fst (Store_Has (env_ok\<lparr>gsi_err := Some (Failure ''datastore closed'')\<rparr>) toy_stored toy_root)
     = (False, Some (Failure ''datastore closed''))"
proof -
  have g: "gsi_err env_ok = None"
    by (simp add: env_ok_def)
  have a: "dgstr toy_stored (key_of toy_root) = Some toy_shard"
    by (simp add: toy_stored_def cache_def toy_key)
  have b: "dgstr toy_new (key_of toy_root) = None"
    by (simp add: toy_new_def cache_def)
  have c: "gsi_err (env_ok\<lparr>gsi_err := Some (Failure ''datastore closed'')\<rparr>)
             = Some (Failure ''datastore closed'') \<and> Failure ''datastore closed'' \<noteq> ErrShardUnknown"
    by simp
  have 1: "fst (Store_Has env_ok toy_errored toy_root) = (True, Some (Failure ''indexing failed''))"
    using g toy_errored_shard
      Store_Has_registry [of env_ok toy_errored toy_root
        "toy_shard\<lparr>sh_state := ShardStateErrored, sh_err := Some (Failure ''indexing failed'')\<rparr>",
        THEN conjunct1]
    by simp
  have 2: "fst (Store_Has env_ok toy_stored toy_root) = (True, None)"
    using g a Store_Has_registry [of env_ok toy_stored toy_root toy_shard, THEN conjunct1]
    by (simp add: toy_shard_def)
  have 3: "fst (Store_Has env_ok toy_new toy_root) = (False, None)"
    using g b Store_Has_registry [of env_ok toy_new toy_root, THEN conjunct2, THEN conjunct1]
    by simp
  have 4: "fst (Store_Has (env_ok\<lparr>gsi_err := Some (Failure ''datastore closed'')\<rparr>) toy_stored toy_root)
     = (False, Some (Failure ''datastore closed''))"
    using c Store_Has_registry [of "env_ok\<lparr>gsi_err := Some (Failure ''datastore closed'')\<rparr>"
        toy_stored toy_root _ "Failure ''datastore closed''",
        THEN conjunct2, THEN conjunct2, THEN conjunct2, THEN conjunct1]
    by blast
  from 1 2 3 4 show ?thesis
    by blast
qed

subsection \<open>Put on a root that is there\<close>

text \<open>
  Claim C1. When Has reports the root as present, whatever error state the shard is in, Put
  ends at once: it returns ErrShardExists, which Put counts as putExists, and its only call
  is the GetShardInfo of Has; no file is opened or written, no shard is registered, the
  files and the registry are as before, with the one shard of the root in it.
\<close>
theorem Store_Put_already_exists:
  "(fst (fst (Store_Has en s root)) \<longrightarrow>
      Store_Put x en s root square
        = (Some ErrShardExists, emit [EvGetShardInfo (key_of root)] s) \<and>
      Put_result (fst (Store_Put x en s root square)) = putExists \<and>
      new_events s (snd (Store_Put x en s root square)) = [EvGetShardInfo (key_of root)] \<and>
      files (snd (Store_Put x en s root square)) = files s \<and>
      dgstr (snd (Store_Put x en s root square)) = dgstr s) \<and>
   (gsi_err en = None \<and> dgstr s (key_of root) = Some sh \<longrightarrow>
      fst (Store_Has en s root) = (True, sh_err sh) \<and>
      fst (Store_Put x en s root square) = Some ErrShardExists \<and>
      dgstr (snd (Store_Put x en s root square)) (key_of root) = Some sh)"
proof (intro conjI impI)
  assume h: "fst (fst (Store_Has en s root))"
  then show eq: "Store_Put x en s root square
        = (Some ErrShardExists, emit [EvGetShardInfo (key_of root)] s)"
    by (auto simp: Store_Put_def Store_put_def Store_Has_def Store_has_def key_of_def Let_def
             split: option.splits if_splits prod.splits bool.splits)
  show "Put_result (fst (Store_Put x en s root square)) = putExists"
    by (simp add: eq Put_result_def errors_Is_opt_def)
  show "new_events s (snd (Store_Put x en s root square)) = [EvGetShardInfo (key_of root)]"
    by (simp add: eq)
  show "files (snd (Store_Put x en s root square)) = files s"
    by (simp add: eq)
  show "dgstr (snd (Store_Put x en s root square)) = dgstr s"
    by (simp add: eq)
next
  assume a: "gsi_err en = None \<and> dgstr s (key_of root) = Some sh"
  then have has: "Store_Has en s root = ((True, sh_err sh), emit [EvGetShardInfo (key_of root)] s)"
    by (simp add: Store_Has_registered)
  then show "fst (Store_Has en s root) = (True, sh_err sh)"
    by simp
  from has have eq: "Store_Put x en s root square
        = (Some ErrShardExists, emit [EvGetShardInfo (key_of root)] s)"
    by (simp add: Store_Put_def Store_put_def)
  show "fst (Store_Put x en s root square) = Some ErrShardExists"
    by (simp add: eq)
  from a show "dgstr (snd (Store_Put x en s root square)) (key_of root) = Some sh"
    by (simp add: eq)
qed

theorem Store_Put_already_exists_witness:
  "fst (fst (Store_Has env_ok toy_errored toy_root)) \<and>
   fst (Store_Has env_ok toy_errored toy_root) = (True, Some (Failure ''indexing failed'')) \<and>
   Store_Put toy_ext env_ok toy_errored toy_root toy_square
     = (Some ErrShardExists, emit [EvGetShardInfo (KeyFromString ''10'')] toy_errored) \<and>
   files (snd (Store_Put toy_ext env_ok toy_errored toy_root toy_square))
     = [''/eds/blocks/10'' \<mapsto> [2, 7, 9]]"
proof -
  have g: "gsi_err env_ok = None"
    by (simp add: env_ok_def)
  have h: "fst (fst (Store_Has env_ok toy_errored toy_root))"
    by (simp add: Store_Has_registered [OF g toy_errored_shard])
  have f: "files toy_errored = [''/eds/blocks/10'' \<mapsto> [2, 7, 9]]"
    by (simp add: toy_errored_def toy_stored_def cache_def)
  from h g toy_errored_shard f
    Store_Put_already_exists [of env_ok toy_errored toy_root toy_ext toy_square
      "toy_shard\<lparr>sh_state := ShardStateErrored, sh_err := Some (Failure ''indexing failed'')\<rparr>"]
  show ?thesis
    by (simp add: toy_key)
qed

subsection \<open>Remove\<close>

lemma Store_remove_cases:
  "Store_remove en s root =
     (case DestroyShard en (dgstr s) (key_of root) of
        Some e \<Rightarrow> (Some (Errorf ''failed to initiate shard destruction'' e),
                   emit [EvDestroyShard (key_of root)] s)
      | None \<Rightarrow>
          (case chosen en of
             CtxDone e \<Rightarrow>
               (Some e, emit [EvDestroyShard (key_of root), EvGo_trackLateResult ''remove'' Minute] s)
           | ResultArrived (Some e) \<Rightarrow>
               (Some (Errorf ''failed to destroy shard'' e), emit [EvDestroyShard (key_of root)] s)
           | ResultArrived None \<Rightarrow>
               (let warn = (if fst (drop_res en) then []
                            else [EvLogWarn (''failed to drop index for '' @ DataHash_String root)]);
                    s1 = s\<lparr>dgstr := (dgstr s)(key_of root := None)\<rparr>
                in case snd (drop_res en) of
                     Some e \<Rightarrow>
                       (Some (Errorf (''failed to drop index for '' @ DataHash_String root) e),
                        emit ([EvDestroyShard (key_of root), EvDropFullIndex (key_of root)] @ warn) s1)
                   | None \<Rightarrow>
                       (map_option (Errorf ''failed to remove CAR file'') (rm_err en),
                        (emit ([EvDestroyShard (key_of root), EvDropFullIndex (key_of root)] @ warn
                               @ [EvRemoveFile (path_of s root)]) s1)
                          \<lparr>files := (if rm_err en = None then (files s)(path_of s root := None)
                                      else files s)\<rparr>))))"
  by (auto simp: Store_remove_def key_of_def path_of_def Let_def destroy_result_def emit_def
           split: prod.splits option.splits select_case.splits)

text \<open>
  Claim C3. Remove destroys the shard, then drops the index, then deletes the file, in that
  order. When the destruction cannot be started, fails, or the context is done first, Remove
  returns with the index and the file untouched. When the index reports that nothing was
  dropped and no error, a warning is logged and the file is still deleted. An error of the
  index drop, or of the file deletion, is returned to the caller (wrapped), and an error of
  the index drop leaves the file in place. So the index is dropped only after a destruction
  that succeeded, and the file is deleted only after an index drop that reported no error.
\<close>
theorem Store_Remove_order:
  "(DestroyShard en (dgstr s) (key_of root) = Some e \<longrightarrow>
      fst (Store_Remove en s root) = Some (Errorf ''failed to initiate shard destruction'' e) \<and>
      new_events s (snd (Store_Remove en s root)) = [EvDestroyShard (key_of root)] \<and>
      files (snd (Store_Remove en s root)) = files s) \<and>
   (DestroyShard en (dgstr s) (key_of root) = None \<and> chosen en = ResultArrived (Some e) \<longrightarrow>
      fst (Store_Remove en s root) = Some (Errorf ''failed to destroy shard'' e) \<and>
      new_events s (snd (Store_Remove en s root)) = [EvDestroyShard (key_of root)] \<and>
      files (snd (Store_Remove en s root)) = files s) \<and>
   (DestroyShard en (dgstr s) (key_of root) = None \<and> chosen en = CtxDone e \<longrightarrow>
      fst (Store_Remove en s root) = Some e \<and>
      new_events s (snd (Store_Remove en s root))
        = [EvDestroyShard (key_of root), EvGo_trackLateResult ''remove'' Minute] \<and>
      files (snd (Store_Remove en s root)) = files s) \<and>
   (DestroyShard en (dgstr s) (key_of root) = None \<and> chosen en = ResultArrived None \<and>
    drop_res en = (dropped, Some e) \<longrightarrow>
      fst (Store_Remove en s root)
        = Some (Errorf (''failed to drop index for '' @ DataHash_String root) e) \<and>
      new_events s (snd (Store_Remove en s root))
        = [EvDestroyShard (key_of root), EvDropFullIndex (key_of root)]
          @ (if dropped then [] else [EvLogWarn (''failed to drop index for '' @ DataHash_String root)]) \<and>
      files (snd (Store_Remove en s root)) = files s) \<and>
   (DestroyShard en (dgstr s) (key_of root) = None \<and> chosen en = ResultArrived None \<and>
    drop_res en = (dropped, None) \<longrightarrow>
      fst (Store_Remove en s root) = map_option (Errorf ''failed to remove CAR file'') (rm_err en) \<and>
      new_events s (snd (Store_Remove en s root))
        = [EvDestroyShard (key_of root), EvDropFullIndex (key_of root)]
          @ (if dropped then [] else [EvLogWarn (''failed to drop index for '' @ DataHash_String root)])
          @ [EvRemoveFile (path_of s root)] \<and>
      files (snd (Store_Remove en s root))
        = (if rm_err en = None then (files s)(path_of s root := None) else files s)) \<and>
   (EvDropFullIndex (key_of root) \<in> set (new_events s (snd (Store_Remove en s root))) \<longrightarrow>
      DestroyShard en (dgstr s) (key_of root) = None \<and> chosen en = ResultArrived None) \<and>
   (EvRemoveFile (path_of s root) \<in> set (new_events s (snd (Store_Remove en s root))) \<longrightarrow>
      DestroyShard en (dgstr s) (key_of root) = None \<and> chosen en = ResultArrived None \<and>
      snd (drop_res en) = None)"
  by (auto simp: Store_Remove_def Store_remove_cases new_events_def Let_def
           split: option.splits select_case.splits)

theorem Store_Remove_order_witness:
  "fst (Store_Remove env_ok toy_new toy_root)
     = Some (Errorf ''failed to initiate shard destruction'' ErrShardUnknown) \<and>
   new_events toy_new (snd (Store_Remove env_ok toy_new toy_root))
     = [EvDestroyShard (KeyFromString ''10'')] \<and>
   fst (Store_Remove (env_ok\<lparr>chosen := CtxDone Canceled\<rparr>) toy_stored toy_root) = Some Canceled \<and>
   new_events toy_stored (snd (Store_Remove (env_ok\<lparr>chosen := CtxDone Canceled\<rparr>) toy_stored toy_root))
     = [EvDestroyShard (KeyFromString ''10''), EvGo_trackLateResult ''remove'' Minute] \<and>
   fst (Store_Remove (env_ok\<lparr>drop_res := (False, None)\<rparr>) toy_stored toy_root) = None \<and>
   new_events toy_stored (snd (Store_Remove (env_ok\<lparr>drop_res := (False, None)\<rparr>) toy_stored toy_root))
     = [EvDestroyShard (KeyFromString ''10''), EvDropFullIndex (KeyFromString ''10''),
        EvLogWarn ''failed to drop index for 10'', EvRemoveFile ''/eds/blocks/10''] \<and>
   files (snd (Store_Remove (env_ok\<lparr>drop_res := (False, None)\<rparr>) toy_stored toy_root)) = Map.empty \<and>
   fst (Store_Remove (env_ok\<lparr>drop_res := (False, Some (Failure ''disk''))\<rparr>) toy_stored toy_root)
     = Some (Errorf ''failed to drop index for 10'' (Failure ''disk'')) \<and>
   files (snd (Store_Remove (env_ok\<lparr>drop_res := (False, Some (Failure ''disk''))\<rparr>) toy_stored toy_root))
     = [''/eds/blocks/10'' \<mapsto> [2, 7, 9]]"
proof -
  let ?warn = "env_ok\<lparr>drop_res := (False, None)\<rparr>"
  let ?bad = "env_ok\<lparr>drop_res := (False, Some (Failure ''disk''))\<rparr>"
  let ?ctx = "env_ok\<lparr>chosen := CtxDone Canceled\<rparr>"
  have d0: "DestroyShard env_ok (dgstr toy_new) (key_of toy_root) = Some ErrShardUnknown"
    by (simp add: DestroyShard_def toy_new_def cache_def)
  have d1: "DestroyShard ?ctx (dgstr toy_stored) (key_of toy_root) = None \<and> chosen ?ctx = CtxDone Canceled"
    by (simp add: DestroyShard_def toy_stored_def cache_def toy_key env_ok_def)
  have d2: "DestroyShard ?warn (dgstr toy_stored) (key_of toy_root) = None \<and>
            chosen ?warn = ResultArrived None \<and> drop_res ?warn = (False, None)"
    by (simp add: DestroyShard_def toy_stored_def cache_def toy_key env_ok_def)
  have d3: "DestroyShard ?bad (dgstr toy_stored) (key_of toy_root) = None \<and>
            chosen ?bad = ResultArrived None \<and> drop_res ?bad = (False, Some (Failure ''disk''))"
    by (simp add: DestroyShard_def toy_stored_def cache_def toy_key env_ok_def)
  have r: "rm_err ?warn = None"
    by (simp add: env_ok_def)
  have p: "path_of toy_stored toy_root = ''/eds/blocks/10''"
    by (simp add: path_of_def toy_stored_def cache_def toy_string blocksPath_def)
  have f: "files toy_stored = [''/eds/blocks/10'' \<mapsto> [2, 7, 9]]"
    by (simp add: toy_stored_def cache_def)
  note t = Store_Remove_order
  from t [of env_ok toy_new toy_root ErrShardUnknown, THEN conjunct1] d0
  have 1: "fst (Store_Remove env_ok toy_new toy_root)
     = Some (Errorf ''failed to initiate shard destruction'' ErrShardUnknown) \<and>
   new_events toy_new (snd (Store_Remove env_ok toy_new toy_root))
     = [EvDestroyShard (KeyFromString ''10'')]"
    by (simp add: toy_key)
  from t [of ?ctx toy_stored toy_root Canceled, THEN conjunct2, THEN conjunct2, THEN conjunct1] d1
  have 2: "fst (Store_Remove ?ctx toy_stored toy_root) = Some Canceled \<and>
   new_events toy_stored (snd (Store_Remove ?ctx toy_stored toy_root))
     = [EvDestroyShard (KeyFromString ''10''), EvGo_trackLateResult ''remove'' Minute]"
    by (simp add: toy_key)
  from t [of ?warn toy_stored toy_root _ False,
          THEN conjunct2, THEN conjunct2, THEN conjunct2, THEN conjunct2, THEN conjunct1] d2 r p f
  have 3: "fst (Store_Remove ?warn toy_stored toy_root) = None \<and>
   new_events toy_stored (snd (Store_Remove ?warn toy_stored toy_root))
     = [EvDestroyShard (KeyFromString ''10''), EvDropFullIndex (KeyFromString ''10''),
        EvLogWarn ''failed to drop index for 10'', EvRemoveFile ''/eds/blocks/10''] \<and>
   files (snd (Store_Remove ?warn toy_stored toy_root)) = Map.empty"
    by (simp add: toy_key toy_string)
  from t [of ?bad toy_stored toy_root "Failure ''disk''" False,
          THEN conjunct2, THEN conjunct2, THEN conjunct2, THEN conjunct1] d3 f
  have 4: "fst (Store_Remove ?bad toy_stored toy_root)
     = Some (Errorf ''failed to drop index for 10'' (Failure ''disk'')) \<and>
   files (snd (Store_Remove ?bad toy_stored toy_root)) = [''/eds/blocks/10'' \<mapsto> [2, 7, 9]]"
    by (simp add: toy_string)
  from 1 2 3 4 show ?thesis
    by blast
qed

subsection \<open>Start and Stop\<close>

lemma Store_Start_ok:
  "dag_start_err en = None \<Longrightarrow> gcInterval s = 0 \<Longrightarrow>
     Store_Start en s
       = (None, (emit [EvDagStart] s)\<lparr>cancel := Some CancelRunCtx, lastGCResult := Some Map.empty\<rparr>)"
  by (simp add: Store_Start_def Let_def)

lemma toy_started:
  "Store_Start env_ok toy_new
     = (None, (emit [EvDagStart] toy_new)\<lparr>cancel := Some CancelRunCtx, lastGCResult := Some Map.empty\<rparr>)"
  by (rule Store_Start_ok) (simp_all add: env_ok_def toy_new_def cache_def defaultGCInterval_def)

text \<open>
  Claim C10, as stated, at a concrete input: the store is started, and closing the index
  fails when it is stopped. Stop returns the error of the index, and the lifecycle manager
  is not closed.
\<close>
theorem Store_Stop_closes_all_counterexample:
  "fst (Store_Start env_ok toy_new) = None \<and>
   fst (Store_Stop (env_ok\<lparr>idx_close_err := Some (Failure ''close'')\<rparr>)
          (snd (Store_Start env_ok toy_new)))
     = Returned (Some (Failure ''close'')) \<and>
   EvDagClose \<notin> set (trace (snd (Store_Stop (env_ok\<lparr>idx_close_err := Some (Failure ''close'')\<rparr>)
                                     (snd (Store_Start env_ok toy_new)))))"
proof -
  have t: "trace toy_new = []"
    by (simp add: toy_new_def cache_def)
  show ?thesis
    by (simp add: toy_started Store_Stop_def Let_def t)
qed

text \<open>
  Claim C10, amended. Stop calls the cancel function on every return, and a store whose
  cancel is nil panics there, the deferred call coming after the closes of the body;
  NewStore sets no cancel and Start sets it exactly when it succeeds. After a successful
  Start, Stop closes the index, closes the lifecycle manager when closing the index
  reported no error, and then cancels the context of the background loop; when closing the
  index fails, Stop returns that error and the lifecycle manager is left open.
\<close>
theorem Store_Stop_after_Start:
  "(cancel s = None \<longrightarrow>
      fst (Store_Stop en s) = Panicked \<and>
      new_events s (snd (Store_Stop en s))
        = [EvIndexClose] @ (if idx_close_err en = None then [EvDagClose] else [])) \<and>
   (NewStore en0 bp fs = Inr s0 \<longrightarrow> cancel s0 = None) \<and>
   cancel (snd (Store_Start en0 s))
     = (if fst (Store_Start en0 s) = None then Some CancelRunCtx else cancel s) \<and>
   (fst (Store_Start en0 s) = None \<longrightarrow>
      fst (Store_Stop en (snd (Store_Start en0 s)))
        = Returned (case idx_close_err en of Some e \<Rightarrow> Some e | None \<Rightarrow> dag_close_err en) \<and>
      new_events (snd (Store_Start en0 s)) (snd (Store_Stop en (snd (Store_Start en0 s))))
        = [EvIndexClose] @ (if idx_close_err en = None then [EvDagClose] else []) @ [EvCancel])"
  by (auto simp: Store_Stop_def Store_Start_def NewStore_def new_events_def Let_def
           split: option.splits prod.splits)

theorem Store_Stop_after_Start_witness:
  "NewStore env_ok ''/eds'' Map.empty = Inr toy_new \<and>
   cancel toy_new = None \<and>
   fst (Store_Stop env_ok toy_new) = Panicked \<and>
   new_events toy_new (snd (Store_Stop env_ok toy_new)) = [EvIndexClose, EvDagClose] \<and>
   fst (Store_Start env_ok toy_new) = None \<and>
   fst (Store_Stop env_ok (snd (Store_Start env_ok toy_new))) = Returned None \<and>
   new_events (snd (Store_Start env_ok toy_new))
       (snd (Store_Stop env_ok (snd (Store_Start env_ok toy_new))))
     = [EvIndexClose, EvDagClose, EvCancel]"
proof -
  have n: "NewStore env_ok ''/eds'' Map.empty = Inr toy_new"
    by (simp add: NewStore_def env_ok_def toy_new_def cache_def)
  have st: "fst (Store_Start env_ok toy_new) = None"
    by (simp add: toy_started)
  have e: "idx_close_err env_ok = None \<and> dag_close_err env_ok = None"
    by (simp add: env_ok_def)
  note t = Store_Stop_after_Start [of toy_new env_ok env_ok "''/eds''" Map.empty toy_new]
  from t n have c: "cancel toy_new = None"
    by blast
  with t e have p: "fst (Store_Stop env_ok toy_new) = Panicked \<and>
      new_events toy_new (snd (Store_Stop env_ok toy_new)) = [EvIndexClose, EvDagClose]"
    by simp
  from t st e have "fst (Store_Stop env_ok (snd (Store_Start env_ok toy_new))) = Returned None \<and>
   new_events (snd (Store_Start env_ok toy_new))
       (snd (Store_Stop env_ok (snd (Store_Start env_ok toy_new))))
     = [EvIndexClose, EvDagClose, EvCancel]"
    by simp
  with n c p st show ?thesis
    by blast
qed

subsection \<open>The header of a shard\<close>

lemma getCachedAccessor_acquires:
  assumes "cache s key = None" "dgstr s key = Some sh" "buf (sh_mount sh) = None"
    "files s (Path (sh_mount sh)) = Some c"
    "init_err en = None" "chosen en = ResultArrived None" "blockstore_err en = None"
  shows "fst (Store_getCachedAccessor x en s key)
           = Inr \<lparr>sa = \<lparr>data = FileReader c, shard_key = key\<rparr>,
                  bs = Blockstore_of \<lparr>data = FileReader c, shard_key = key\<rparr>\<rparr>"
  using assms
  by (simp add: Store_getCachedAccessor_def unsafeGet_cache unsafeAdd_def Store_getAccessor_def
      AcquireShard_def acquire_result_def Fetch_def FileMount_Fetch_def Let_def)

lemma env_ok_acquire:
  "init_err env_ok = None" "chosen env_ok = ResultArrived None" "blockstore_err env_ok = None"
  by (simp_all add: env_ok_def)

text \<open>
  Claim C7. The header that dahFromCARHeader builds from a CAR header of 2 W roots has the
  first W of them as RowRoots and the last W as ColumnRoots, in the header's order. GetDAH,
  once it has the accessor of the shard, reads the CAR header from the accessor's reader and
  nothing else; it returns the header built from it when that header's hash is the root
  asked for, and the content-integrity error when the hash differs.
\<close>
theorem Store_GetDAH_header:
  "(length Roots = 2 * W \<longrightarrow>
      RowRoots (dahFromCARHeader x Roots) = map (NamespacedSha256FromCID x) (take W Roots) \<and>
      ColumnRoots (dahFromCARHeader x Roots) = map (NamespacedSha256FromCID x) (drop W Roots) \<and>
      length (RowRoots (dahFromCARHeader x Roots)) = W \<and>
      length (ColumnRoots (dahFromCARHeader x Roots)) = W \<and>
      RowRoots (dahFromCARHeader x Roots) @ ColumnRoots (dahFromCARHeader x Roots)
        = map (NamespacedSha256FromCID x) Roots) \<and>
   (fst (Store_getCachedAccessor x en s (key_of root)) = Inr a \<and>
    ReadHeader x (Reader_bytes (data (sa a))) = Inr h \<longrightarrow>
      fst (Store_GetDAH x en s root)
        = (if DAH_Hash x (dahFromCARHeader x h) = root then Inr (dahFromCARHeader x h)
           else Inl (Failure (''eds/store: content integrity mismatch from CAR for root ''
                                @ hex_lower root))) \<and>
      snd (Store_GetDAH x en s root) = snd (Store_getCachedAccessor x en s (key_of root)))"
  by (auto simp: dahFromCARHeader_def Store_GetDAH_def Store_getDAH_def key_of_def Let_def
                 take_map drop_map
           simp flip: map_append split: prod.splits)

theorem Store_GetDAH_header_witness:
  "dahFromCARHeader toy_ext [[7], [9]] = \<lparr>RowRoots = [[7]], ColumnRoots = [[9]]\<rparr> \<and>
   fst (Store_GetDAH toy_ext env_ok toy_stored toy_root)
     = Inr \<lparr>RowRoots = [[7]], ColumnRoots = [[9]]\<rparr> \<and>
   fst (Store_GetDAH toy_ext env_ok
          (toy_stored\<lparr>files := [''/eds/blocks/10'' \<mapsto> [2, 7, 8]]\<rparr>) toy_root)
     = Inl (Failure ''eds/store: content integrity mismatch from CAR for root 10'')"
proof -
  let ?tampered = "toy_stored\<lparr>files := [''/eds/blocks/10'' \<mapsto> [2, 7, 8]]\<rparr>"
  let ?acc = "\<lambda>c. \<lparr>sa = \<lparr>data = FileReader c, shard_key = key_of toy_root\<rparr>,
                    bs = Blockstore_of \<lparr>data = FileReader c, shard_key = key_of toy_root\<rparr>\<rparr>"
  have a: "fst (Store_getCachedAccessor toy_ext env_ok toy_stored (key_of toy_root))
             = Inr (?acc [2, 7, 9])"
    by (rule getCachedAccessor_acquires [where sh = toy_shard])
       (simp_all add: env_ok_acquire toy_stored_def cache_def toy_shard_def toy_key)
  have a': "fst (Store_getCachedAccessor toy_ext env_ok ?tampered (key_of toy_root))
             = Inr (?acc [2, 7, 8])"
    by (rule getCachedAccessor_acquires [where sh = toy_shard])
       (simp_all add: env_ok_acquire toy_stored_def cache_def toy_shard_def toy_key)
  have h: "ReadHeader toy_ext (Reader_bytes (data (sa (?acc [2, 7, 9])))) = Inr [[7], [9]]"
    by (simp add: toy_ext_def)
  have h': "ReadHeader toy_ext (Reader_bytes (data (sa (?acc [2, 7, 8])))) = Inr [[7], [8]]"
    by (simp add: toy_ext_def)
  have l: "length [[7], [9 :: 8 word]] = 2 * 1"
    by simp
  have d: "dahFromCARHeader toy_ext [[7], [9]] = \<lparr>RowRoots = [[7]], ColumnRoots = [[9]]\<rparr>"
    using l Store_GetDAH_header [of "[[7], [9]]" 1 toy_ext, THEN conjunct1]
    by (simp add: toy_ext_def)
  have k: "DAH_Hash toy_ext (dahFromCARHeader toy_ext [[7], [9]]) = toy_root"
    by (simp add: d) (simp add: toy_ext_def toy_root_of_def toy_root_def)
  have k': "DAH_Hash toy_ext (dahFromCARHeader toy_ext [[7], [8]]) \<noteq> toy_root"
    by (simp add: toy_ext_def dahFromCARHeader_def toy_root_of_def toy_root_def)
  have x: "hex_lower toy_root = ''10''"
    by (simp add: toy_root_def hex_lower_def hexString_def hexByte_def)
  have 1: "fst (Store_GetDAH toy_ext env_ok toy_stored toy_root)
     = Inr \<lparr>RowRoots = [[7]], ColumnRoots = [[9]]\<rparr>"
    using a h k d
      Store_GetDAH_header [of _ _ toy_ext env_ok toy_stored toy_root "?acc [2, 7, 9]" "[[7], [9]]",
        THEN conjunct2]
    by simp
  have 2: "fst (Store_GetDAH toy_ext env_ok ?tampered toy_root)
     = Inl (Failure ''eds/store: content integrity mismatch from CAR for root 10'')"
    using a' h' k' x
      Store_GetDAH_header [of _ _ toy_ext env_ok ?tampered toy_root "?acc [2, 7, 8]" "[[7], [8]]",
        THEN conjunct2]
    by simp
  from d 1 2 show ?thesis
    by blast
qed

subsection \<open>A context that is done before the result\<close>

lemma errors_Is_refl [simp]: "errors_Is e e"
  by (cases e) simp_all

lemma Store_Has_unregistered:
  "dgstr s (key_of root) = None \<Longrightarrow>
     fst (fst (Store_Has en s root)) = False \<and>
     snd (Store_Has en s root) = emit [EvGetShardInfo (key_of root)] s"
  by (simp add: Store_Has_def Store_has_def GetShardInfo_def key_of_def Let_def
           split: option.splits)

lemma Store_put_ctx_done:
  assumes "dgstr s (key_of root) = None" "open_err en = None" "WriteEDS x square = Inr b"
    "copy_err en = None" "init_err en = None" "chosen en = CtxDone e"
  shows "fst (Store_put x en s root square) = Some e \<and>
         new_events s (snd (Store_put x en s root square))
           = [EvGetShardInfo (key_of root), EvOpenFile (path_of s root),
              EvWriteFile (path_of s root) b, EvRegisterShard (key_of root),
              EvGo_trackLateResult ''put'' (Minute * 5), EvCloseFile (path_of s root)]"
proof -
  obtain hr where h: "Store_Has en s root = ((False, hr), emit [EvGetShardInfo (key_of root)] s)"
    using Store_Has_unregistered [OF assms(1), of en]
    by (metis prod.collapse)
  show ?thesis
    using assms
    by (simp add: Store_put_def h OpenFile_def WriteTo_def RegisterShard_def new_events_def
        path_of_def Let_def key_of_def [symmetric])
qed

lemma Store_getAccessor_ctx_done:
  assumes "dgstr s key = Some sh" "init_err en = None" "chosen en = CtxDone e"
  shows "Store_getAccessor en s key
           = (Inl e, emit [EvAcquireShard key, EvGo_trackLateResult ''get_shard'' Minute] s)"
  using assms
  by (simp add: Store_getAccessor_def AcquireShard_def Let_def emit_def)

lemma Store_getCachedAccessor_ctx_done:
  assumes "cache s key = None" "dgstr s key = Some sh" "init_err en = None" "chosen en = CtxDone e"
  shows "Store_getCachedAccessor x en s key
           = (Inl e, emit [EvLock (shardKeyToStriped x key), EvAcquireShard key,
                           EvGo_trackLateResult ''get_shard'' Minute,
                           EvUnlock (shardKeyToStriped x key)] s)"
  using assms
  by (simp add: Store_getCachedAccessor_def unsafeGet_cache Let_def
      Store_getAccessor_ctx_done [where sh = sh] emit_def)

lemma Store_remove_ctx_done:
  assumes "dgstr s (key_of root) = Some sh" "init_err en = None" "chosen en = CtxDone e"
  shows "Store_remove en s root
           = (Some e, emit [EvDestroyShard (key_of root), EvGo_trackLateResult ''remove'' Minute] s)"
  using assms
  by (simp add: Store_remove_cases DestroyShard_def)

lemma trackLateResult_bound: "fst (trackLateResult opName arrival maxWait) \<le> maxWait"
  by (auto simp: trackLateResult_def Let_def split: option.splits prod.splits)

text \<open>
  Claim C5. When the select of put, of getAccessor (which serves Get, GetCAR, CARBlockstore
  and GetDAH on a cache miss) or of remove finds the caller's context done before the result
  is on the channel, the call returns the context's error and its last act before returning
  is to start trackLateResult on the channel, with a wait of 5 minutes for put and of 1
  minute for getAccessor and for remove. The tracker never waits longer than that, and all
  it produces is metric observations and log lines: when no result has come after the wait
  it reports the operation as unresolved; a result that comes in less than a second is not
  reported; a later one is reported as failed, with its error, or as finished with no error.
\<close>
theorem context_done_starts_tracker:
  "(dgstr s (key_of root) = None \<and> open_err en = None \<and> WriteEDS x square = Inr b \<and>
    copy_err en = None \<and> init_err en = None \<and> chosen en = CtxDone e \<longrightarrow>
      fst (Store_Put x en s root square) = Some e \<and>
      new_events s (snd (Store_Put x en s root square))
        = [EvGetShardInfo (key_of root), EvOpenFile (path_of s root),
           EvWriteFile (path_of s root) b, EvRegisterShard (key_of root),
           EvGo_trackLateResult ''put'' (Minute * 5), EvCloseFile (path_of s root)]) \<and>
   (dgstr s key = Some sh \<and> init_err en = None \<and> chosen en = CtxDone e \<longrightarrow>
      Store_getAccessor en s key
        = (Inl e, emit [EvAcquireShard key, EvGo_trackLateResult ''get_shard'' Minute] s)) \<and>
   (cache s (key_of root) = None \<and> dgstr s (key_of root) = Some sh \<and>
    init_err en = None \<and> chosen en = CtxDone e \<longrightarrow>
      fails_with (fst (Store_Get x en s root)) e \<and>
      fails_with (fst (Store_GetCAR x en s root)) e \<and>
      fails_with (fst (Store_CARBlockstore x en s root)) e \<and>
      fails_with (fst (Store_GetDAH x en s root)) e \<and>
      new_events s (snd (Store_GetCAR x en s root))
        = [EvLock (shardKeyToStriped x (key_of root)), EvAcquireShard (key_of root),
           EvGo_trackLateResult ''get_shard'' Minute,
           EvUnlock (shardKeyToStriped x (key_of root))]) \<and>
   (dgstr s (key_of root) = Some sh \<and> init_err en = None \<and> chosen en = CtxDone e \<longrightarrow>
      Store_Remove en s root
        = (Some e, emit [EvDestroyShard (key_of root), EvGo_trackLateResult ''remove'' Minute] s)) \<and>
   fst (trackLateResult opName arrival maxWait) \<le> maxWait \<and>
   trackLateResult opName None maxWait
     = (maxWait, [ObserveLongOp opName longOpUnresolved,
                  LogError ''parent context is expired, while register shard is stuck'' None]) \<and>
   Minute * 5 = 300 * Second \<and> Minute = 60 * Second \<and>
   (maxWait \<le> t \<longrightarrow>
      trackLateResult opName (Some (t, r)) maxWait
        = (maxWait, [ObserveLongOp opName longOpUnresolved,
                     LogError ''parent context is expired, while register shard is stuck'' None])) \<and>
   (t < maxWait \<and> t < Second \<longrightarrow> trackLateResult opName (Some (t, r)) maxWait = (t, [])) \<and>
   (t < maxWait \<and> Second \<le> t \<longrightarrow>
      trackLateResult opName (Some (t, Some e')) maxWait
        = (t, [ObserveLongOp opName longOpFailed,
               LogError ''failed to register shard after context expired'' (Some e')])) \<and>
   (t < maxWait \<and> Second \<le> t \<longrightarrow>
      trackLateResult opName (Some (t, None)) maxWait
        = (t, [ObserveLongOp opName longOpOK,
               LogWarn ''parent context expired, but register shard finished with no error'']))"
proof (intro conjI impI)
  assume a: "dgstr s (key_of root) = None \<and> open_err en = None \<and> WriteEDS x square = Inr b \<and>
    copy_err en = None \<and> init_err en = None \<and> chosen en = CtxDone e"
  then have p: "fst (Store_put x en s root square) = Some e \<and>
         new_events s (snd (Store_put x en s root square))
           = [EvGetShardInfo (key_of root), EvOpenFile (path_of s root),
              EvWriteFile (path_of s root) b, EvRegisterShard (key_of root),
              EvGo_trackLateResult ''put'' (Minute * 5), EvCloseFile (path_of s root)]"
    by (intro Store_put_ctx_done) simp_all
  from p show "fst (Store_Put x en s root square) = Some e"
    by (simp add: Store_Put_def)
  from p show "new_events s (snd (Store_Put x en s root square))
        = [EvGetShardInfo (key_of root), EvOpenFile (path_of s root),
           EvWriteFile (path_of s root) b, EvRegisterShard (key_of root),
           EvGo_trackLateResult ''put'' (Minute * 5), EvCloseFile (path_of s root)]"
    by (simp add: Store_Put_def)
next
  assume "dgstr s key = Some sh \<and> init_err en = None \<and> chosen en = CtxDone e"
  then show "Store_getAccessor en s key
        = (Inl e, emit [EvAcquireShard key, EvGo_trackLateResult ''get_shard'' Minute] s)"
    by (simp add: Store_getAccessor_ctx_done [where sh = sh])
next
  assume "cache s (key_of root) = None \<and> dgstr s (key_of root) = Some sh \<and>
    init_err en = None \<and> chosen en = CtxDone e"
  then have c: "Store_getCachedAccessor x en s (KeyFromString (DataHash_String root))
           = (Inl e, emit [EvLock (shardKeyToStriped x (key_of root)), EvAcquireShard (key_of root),
                           EvGo_trackLateResult ''get_shard'' Minute,
                           EvUnlock (shardKeyToStriped x (key_of root))] s)"
    using Store_getCachedAccessor_ctx_done [of s "key_of root" sh en e x]
    by (simp add: key_of_def)
  show "fails_with (fst (Store_Get x en s root)) e"
    by (simp add: fails_with_def Store_Get_def Store_get_def Store_GetCAR_def Store_getCAR_def c)
  show "fails_with (fst (Store_GetCAR x en s root)) e"
    by (simp add: fails_with_def Store_GetCAR_def Store_getCAR_def c)
  show "fails_with (fst (Store_CARBlockstore x en s root)) e"
    by (simp add: fails_with_def Store_CARBlockstore_def Store_carBlockstore_def c)
  show "fails_with (fst (Store_GetDAH x en s root)) e"
    by (simp add: fails_with_def Store_GetDAH_def Store_getDAH_def c)
  show "new_events s (snd (Store_GetCAR x en s root))
        = [EvLock (shardKeyToStriped x (key_of root)), EvAcquireShard (key_of root),
           EvGo_trackLateResult ''get_shard'' Minute,
           EvUnlock (shardKeyToStriped x (key_of root))]"
    by (simp add: Store_GetCAR_def Store_getCAR_def c)
next
  assume "dgstr s (key_of root) = Some sh \<and> init_err en = None \<and> chosen en = CtxDone e"
  then show "Store_Remove en s root
        = (Some e, emit [EvDestroyShard (key_of root), EvGo_trackLateResult ''remove'' Minute] s)"
    by (simp add: Store_Remove_def Store_remove_ctx_done [where sh = sh])
next
  show "fst (trackLateResult opName arrival maxWait) \<le> maxWait"
    by (rule trackLateResult_bound)
  show "trackLateResult opName None maxWait
     = (maxWait, [ObserveLongOp opName longOpUnresolved,
                  LogError ''parent context is expired, while register shard is stuck'' None])"
    by (simp add: trackLateResult_def)
  show "Minute * 5 = 300 * Second"
    by (simp add: Minute_def)
  show "Minute = 60 * Second"
    by (simp add: Minute_def)
next
  assume "maxWait \<le> t"
  then show "trackLateResult opName (Some (t, r)) maxWait
        = (maxWait, [ObserveLongOp opName longOpUnresolved,
                     LogError ''parent context is expired, while register shard is stuck'' None])"
    by (simp add: trackLateResult_def)
next
  assume "t < maxWait \<and> t < Second"
  then show "trackLateResult opName (Some (t, r)) maxWait = (t, [])"
    by (simp add: trackLateResult_def)
next
  assume "t < maxWait \<and> Second \<le> t"
  then show "trackLateResult opName (Some (t, Some e')) maxWait
        = (t, [ObserveLongOp opName longOpFailed,
               LogError ''failed to register shard after context expired'' (Some e')])"
    by (simp add: trackLateResult_def)
next
  assume "t < maxWait \<and> Second \<le> t"
  then show "trackLateResult opName (Some (t, None)) maxWait
        = (t, [ObserveLongOp opName longOpOK,
               LogWarn ''parent context expired, but register shard finished with no error''])"
    by (simp add: trackLateResult_def)
qed

theorem context_done_starts_tracker_witness:
  "fst (Store_Put toy_ext (env_ok\<lparr>chosen := CtxDone Canceled\<rparr>) toy_new toy_root toy_square)
     = Some Canceled \<and>
   new_events toy_new
       (snd (Store_Put toy_ext (env_ok\<lparr>chosen := CtxDone Canceled\<rparr>) toy_new toy_root toy_square))
     = [EvGetShardInfo (KeyFromString ''10''), EvOpenFile ''/eds/blocks/10'',
        EvWriteFile ''/eds/blocks/10'' [2, 7, 9], EvRegisterShard (KeyFromString ''10''),
        EvGo_trackLateResult ''put'' 300000000000, EvCloseFile ''/eds/blocks/10''] \<and>
   Store_getAccessor (env_ok\<lparr>chosen := CtxDone DeadlineExceeded\<rparr>) toy_stored (KeyFromString ''10'')
     = (Inl DeadlineExceeded,
        emit [EvAcquireShard (KeyFromString ''10''), EvGo_trackLateResult ''get_shard'' 60000000000]
          toy_stored) \<and>
   fails_with (fst (Store_Get toy_ext (env_ok\<lparr>chosen := CtxDone Canceled\<rparr>) toy_stored toy_root))
     Canceled \<and>
   Store_Remove (env_ok\<lparr>chosen := CtxDone Canceled\<rparr>) toy_stored toy_root
     = (Some Canceled,
        emit [EvDestroyShard (KeyFromString ''10''), EvGo_trackLateResult ''remove'' 60000000000]
          toy_stored) \<and>
   fst (trackLateResult ''put'' (Some (400 * Second, None)) (Minute * 5)) \<le> Minute * 5 \<and>
   trackLateResult ''put'' (Some (400 * Second, None)) (Minute * 5)
     = (Minute * 5, [ObserveLongOp ''put'' longOpUnresolved,
                     LogError ''parent context is expired, while register shard is stuck'' None]) \<and>
   trackLateResult ''put'' (Some (0, Some (Failure ''index''))) (Minute * 5) = (0, []) \<and>
   trackLateResult ''put'' (Some (2 * Second, Some (Failure ''index''))) (Minute * 5)
     = (2 * Second, [ObserveLongOp ''put'' longOpFailed,
                     LogError ''failed to register shard after context expired''
                       (Some (Failure ''index''))]) \<and>
   trackLateResult ''remove'' (Some (2 * Second, None)) Minute
     = (2 * Second, [ObserveLongOp ''remove'' longOpOK,
                     LogWarn ''parent context expired, but register shard finished with no error''])"
proof -
  let ?c = "env_ok\<lparr>chosen := CtxDone Canceled\<rparr>"
  let ?d = "env_ok\<lparr>chosen := CtxDone DeadlineExceeded\<rparr>"
  have m: "Minute = 60000000000" "Minute * 5 = 300000000000"
    by (simp_all add: Minute_def Second_def)
  have p: "path_of toy_new toy_root = ''/eds/blocks/10''"
    by (simp add: path_of_def toy_new_def cache_def toy_string blocksPath_def)
  have hp: "dgstr toy_new (key_of toy_root) = None \<and> open_err ?c = None \<and>
      WriteEDS toy_ext toy_square = Inr [2, 7, 9] \<and>
      copy_err ?c = None \<and> init_err ?c = None \<and> chosen ?c = CtxDone Canceled"
    by (simp add: toy_new_def cache_def env_ok_def toy_ext_def toy_square_def)
  have hs: "dgstr toy_stored (key_of toy_root) = Some toy_shard \<and> cache toy_stored (key_of toy_root) = None"
    by (simp add: toy_stored_def cache_def toy_key)
  have hc: "init_err ?c = None \<and> chosen ?c = CtxDone Canceled"
    by (simp add: env_ok_def)
  have hd: "init_err ?d = None \<and> chosen ?d = CtxDone DeadlineExceeded"
    by (simp add: env_ok_def)
  note t = context_done_starts_tracker
  have 1: "fst (Store_Put toy_ext ?c toy_new toy_root toy_square) = Some Canceled \<and>
    new_events toy_new (snd (Store_Put toy_ext ?c toy_new toy_root toy_square))
     = [EvGetShardInfo (KeyFromString ''10''), EvOpenFile ''/eds/blocks/10'',
        EvWriteFile ''/eds/blocks/10'' [2, 7, 9], EvRegisterShard (KeyFromString ''10''),
        EvGo_trackLateResult ''put'' 300000000000, EvCloseFile ''/eds/blocks/10'']"
    using hp t [of toy_new toy_root ?c toy_ext toy_square "[2, 7, 9]" Canceled, THEN conjunct1]
    by (simp add: p m toy_key)
  have 2: "Store_getAccessor ?d toy_stored (KeyFromString ''10'')
     = (Inl DeadlineExceeded,
        emit [EvAcquireShard (KeyFromString ''10''), EvGo_trackLateResult ''get_shard'' 60000000000]
          toy_stored)"
    using hs hd
      t [of toy_stored _ ?d _ _ _ DeadlineExceeded "KeyFromString ''10''" toy_shard,
         THEN conjunct2, THEN conjunct1]
    by (simp add: m toy_key)
  have 3: "fails_with (fst (Store_Get toy_ext ?c toy_stored toy_root)) Canceled"
    using hs hc
      t [of toy_stored toy_root ?c toy_ext _ _ Canceled _ toy_shard,
         THEN conjunct2, THEN conjunct2, THEN conjunct1]
    by simp
  have 4: "Store_Remove ?c toy_stored toy_root
     = (Some Canceled,
        emit [EvDestroyShard (KeyFromString ''10''), EvGo_trackLateResult ''remove'' 60000000000]
          toy_stored)"
    using hs hc
      t [of toy_stored toy_root ?c _ _ _ Canceled _ toy_shard,
         THEN conjunct2, THEN conjunct2, THEN conjunct2, THEN conjunct1]
    by (simp add: m toy_key)
  have 5: "fst (trackLateResult ''put'' (Some (400 * Second, None)) (Minute * 5)) \<le> Minute * 5"
    using t [of _ _ _ _ _ _ _ _ _ "''put''" "Some (400 * Second, None)" "Minute * 5",
         THEN conjunct2, THEN conjunct2, THEN conjunct2, THEN conjunct2, THEN conjunct1]
    by blast
  have o: "Minute * 5 \<le> 400 * Second" "(0 :: Duration) < Minute * 5 \<and> 0 < Second"
    "2 * Second < Minute * 5 \<and> Second \<le> 2 * Second" "2 * Second < Minute \<and> Second \<le> 2 * Second"
    by (simp_all add: Minute_def Second_def)
  note tr = t [THEN conjunct2, THEN conjunct2, THEN conjunct2, THEN conjunct2, THEN conjunct2,
               THEN conjunct2, THEN conjunct2, THEN conjunct2]
  have 6: "trackLateResult ''put'' (Some (400 * Second, None)) (Minute * 5)
     = (Minute * 5, [ObserveLongOp ''put'' longOpUnresolved,
                     LogError ''parent context is expired, while register shard is stuck'' None])"
    using o(1) tr [THEN conjunct1] by blast
  have 7: "trackLateResult ''put'' (Some (0, Some (Failure ''index''))) (Minute * 5) = (0, [])"
    using o(2) tr [THEN conjunct2, THEN conjunct1] by blast
  have 8: "trackLateResult ''put'' (Some (2 * Second, Some (Failure ''index''))) (Minute * 5)
     = (2 * Second, [ObserveLongOp ''put'' longOpFailed,
                     LogError ''failed to register shard after context expired''
                       (Some (Failure ''index''))])"
    using o(3) tr [THEN conjunct2, THEN conjunct2, THEN conjunct1] by blast
  have 9: "trackLateResult ''remove'' (Some (2 * Second, None)) Minute
     = (2 * Second, [ObserveLongOp ''remove'' longOpOK,
                     LogWarn ''parent context expired, but register shard finished with no error''])"
    using o(4) tr [THEN conjunct2, THEN conjunct2, THEN conjunct2] by blast
  from 1 2 3 4 5 6 7 8 9 show ?thesis
    by blast
qed

subsection \<open>The cached accessor\<close>

lemma Store_getCachedAccessor_hit:
  assumes "cache s key = Some a"
  shows "Store_getCachedAccessor x en s key
           = (Inr a, emit [EvLock (shardKeyToStriped x key), EvUnlock (shardKeyToStriped x key)] s)"
  using assms
  by (simp add: Store_getCachedAccessor_def unsafeGet_cache Let_def emit_def)

lemma Store_getAccessor_trace:
  "\<exists>evs. trace (snd (Store_getAccessor en s key)) = trace s @ EvAcquireShard key # evs \<and>
         filter is_acquire evs = []"
  by (auto simp: Store_getAccessor_def Let_def is_acquire_def
           split: option.splits select_case.splits prod.splits sum.splits)

lemma Store_getCachedAccessor_miss_trace:
  assumes "cache s key = None"
    and "trace (snd (Store_getAccessor en (emit [EvLock lk] s) key))
           = trace (emit [EvLock lk] s) @ EvAcquireShard key # evs"
    and "lk = shardKeyToStriped x key"
  shows "new_events s (snd (Store_getCachedAccessor x en s key))
           = EvLock lk # (EvAcquireShard key # evs) @ [EvUnlock lk]"
  using assms
  by (auto simp: Store_getCachedAccessor_def unsafeGet_cache Let_def new_events_def
           split: prod.splits sum.splits)

lemma Store_getCachedAccessor_bracket:
  "\<exists>evs. new_events s (snd (Store_getCachedAccessor x en s key))
            = EvLock (shardKeyToStriped x key) # evs @ [EvUnlock (shardKeyToStriped x key)] \<and>
         length (filter is_acquire evs) \<le> 1"
proof (cases "cache s key")
  case (Some a)
  then show ?thesis
    by (simp add: Store_getCachedAccessor_hit)
next
  case None
  let ?lk = "shardKeyToStriped x key"
  obtain evs where
    e: "trace (snd (Store_getAccessor en (emit [EvLock ?lk] s) key))
          = trace (emit [EvLock ?lk] s) @ EvAcquireShard key # evs" and
    f: "filter is_acquire evs = []"
    using Store_getAccessor_trace by blast
  have "new_events s (snd (Store_getCachedAccessor x en s key))
          = EvLock ?lk # (EvAcquireShard key # evs) @ [EvUnlock ?lk]"
    using None e by (rule Store_getCachedAccessor_miss_trace) simp
  moreover have "length (filter is_acquire (EvAcquireShard key # evs)) \<le> 1"
    using f by (simp add: is_acquire_def)
  ultimately show ?thesis
    by blast
qed

lemma Store_getCachedAccessor_cached:
  assumes "fst (Store_getCachedAccessor x en s key) = Inr a"
  shows "cache (snd (Store_getCachedAccessor x en s key)) key = Some a"
  using assms
  by (auto simp: Store_getCachedAccessor_def unsafeGet_cache unsafeAdd_def Let_def
           split: option.splits prod.splits sum.splits if_splits)

lemma Store_getAccessor_cache_lru:
  "cache_lru (snd (Store_getAccessor en s key)) = cache_lru s"
  by (auto simp: Store_getAccessor_def Let_def
           split: option.splits select_case.splits prod.splits sum.splits)

lemma call_step_index:
  "call_step x i c = Some c' \<Longrightarrow> i < length (calls c)"
  by (simp add: call_step_def split: if_splits)

lemma in_section_simps [simp]:
  "in_section AtLock = False" "in_section AtGet = True" "in_section AtAcquire = True"
  "in_section (AtAdd a) = True" "in_section (AtUnlock r) = True"
  "in_section (Returned_with r) = False"
  by (simp_all add: in_section_def)

lemma acquiring_simps [simp]:
  "acquiring AtLock = False" "acquiring AtGet = False" "acquiring AtAcquire = True"
  "acquiring (AtAdd a) = True" "acquiring (AtUnlock r) = False"
  "acquiring (Returned_with r) = False"
  by (simp_all add: acquiring_def)

lemma acquiring_in_section: "acquiring p \<Longrightarrow> in_section p"
  by (cases p) simp_all

lemma serialized_update:
  assumes inv: "serialized x c" and i: "i < length (calls c)"
    and c': "calls c' = (calls c)[i := (calls c ! i)\<lparr>call_pc := p\<rparr>]"
    and hi: "in_section p \<Longrightarrow> shardKeyToStriped x (call_key (calls c ! i)) \<in> held c'"
    and ho: "\<And>j. j < length (calls c) \<Longrightarrow> j \<noteq> i \<Longrightarrow> in_section (call_pc (calls c ! j)) \<Longrightarrow>
               shardKeyToStriped x (call_key (calls c ! j)) \<in> held c' \<and>
               (in_section p \<longrightarrow>
                  shardKeyToStriped x (call_key (calls c ! j))
                    \<noteq> shardKeyToStriped x (call_key (calls c ! i)))"
    and ci: "acquiring p \<Longrightarrow> cache (shared c') (call_key (calls c ! i)) = None"
    and co: "\<And>j. j < length (calls c) \<Longrightarrow> j \<noteq> i \<Longrightarrow> acquiring (call_pc (calls c ! j)) \<Longrightarrow>
               cache (shared c') (call_key (calls c ! j)) = None"
  shows "serialized x c'"
proof -
  have len: "length (calls c') = length (calls c)"
    by (simp add: c')
  have at_i: "call_key (calls c' ! i) = call_key (calls c ! i)" "call_pc (calls c' ! i) = p"
    using i by (simp_all add: c')
  have at_o: "calls c' ! j = calls c ! j" if "j \<noteq> i" for j
    using that by (simp add: c')
  from inv have
    b: "\<And>j k. j < length (calls c) \<Longrightarrow> k < length (calls c) \<Longrightarrow> j \<noteq> k \<Longrightarrow>
          in_section (call_pc (calls c ! j)) \<Longrightarrow> in_section (call_pc (calls c ! k)) \<Longrightarrow>
          shardKeyToStriped x (call_key (calls c ! j)) \<noteq> shardKeyToStriped x (call_key (calls c ! k))"
    by (auto simp: serialized_def)
  have 1: "shardKeyToStriped x (call_key (calls c' ! j)) \<in> held c'"
    if "j < length (calls c')" "in_section (call_pc (calls c' ! j))" for j
  proof (cases "j = i")
    case True
    with that hi show ?thesis
      by (simp add: at_i)
  next
    case False
    with that ho [of j] show ?thesis
      by (simp add: at_o len)
  qed
  have 2: "shardKeyToStriped x (call_key (calls c' ! j)) \<noteq> shardKeyToStriped x (call_key (calls c' ! k))"
    if "j < length (calls c')" "k < length (calls c')" "j \<noteq> k"
       "in_section (call_pc (calls c' ! j))" "in_section (call_pc (calls c' ! k))" for j k
  proof (cases "j = i")
    case True
    with that have "k \<noteq> i" "in_section p" "in_section (call_pc (calls c ! k))"
      by (simp_all add: at_i at_o)
    with that ho [of k] True show ?thesis
      by (simp add: at_i at_o len)
  next
    case ji: False
    show ?thesis
    proof (cases "k = i")
      case True
      with that ji have "in_section p" "in_section (call_pc (calls c ! j))"
        by (simp_all add: at_i at_o)
      with that ho [of j] True ji show ?thesis
        by (simp add: at_i at_o len)
    next
      case False
      with that ji b [of j k] show ?thesis
        by (simp add: at_o len)
    qed
  qed
  have 3: "cache (shared c') (call_key (calls c' ! j)) = None"
    if "j < length (calls c')" "acquiring (call_pc (calls c' ! j))" for j
  proof (cases "j = i")
    case True
    with that ci show ?thesis
      by (simp add: at_i)
  next
    case False
    with that co [of j] show ?thesis
      by (simp add: at_o len)
  qed
  from 1 2 3 show ?thesis
    unfolding serialized_def by blast
qed

lemma serialized_step:
  assumes inv: "serialized x c" and st: "call_step x i c = Some c'"
  shows "serialized x c'"
proof -
  from st have i: "i < length (calls c)"
    by (rule call_step_index)
  let ?t = "calls c ! i"
  let ?lk = "shardKeyToStriped x (call_key ?t)"
  from inv have
    a: "\<And>j. j < length (calls c) \<Longrightarrow> in_section (call_pc (calls c ! j)) \<Longrightarrow>
          shardKeyToStriped x (call_key (calls c ! j)) \<in> held c" and
    b: "\<And>j k. j < length (calls c) \<Longrightarrow> k < length (calls c) \<Longrightarrow> j \<noteq> k \<Longrightarrow>
          in_section (call_pc (calls c ! j)) \<Longrightarrow> in_section (call_pc (calls c ! k)) \<Longrightarrow>
          shardKeyToStriped x (call_key (calls c ! j)) \<noteq> shardKeyToStriped x (call_key (calls c ! k))" and
    d: "\<And>j. j < length (calls c) \<Longrightarrow> acquiring (call_pc (calls c ! j)) \<Longrightarrow>
          cache (shared c) (call_key (calls c ! j)) = None"
    by (auto simp: serialized_def)
  show ?thesis
  proof (cases "call_pc ?t")
    case AtLock
    with st i have free: "?lk \<notin> held c" and
      c': "c' = \<lparr>shared = emit [EvLock ?lk] (shared c), held = insert ?lk (held c),
                 calls = (calls c)[i := ?t\<lparr>call_pc := AtGet\<rparr>]\<rparr>"
      by (auto simp: call_step_def Let_def split: if_splits)
    show ?thesis
    proof (rule serialized_update [OF inv i, where p = AtGet])
      show "calls c' = (calls c)[i := ?t\<lparr>call_pc := AtGet\<rparr>]"
        by (simp add: c')
      show "?lk \<in> held c'"
        by (simp add: c')
      show "shardKeyToStriped x (call_key (calls c ! j)) \<in> held c' \<and>
            (in_section AtGet \<longrightarrow> shardKeyToStriped x (call_key (calls c ! j)) \<noteq> ?lk)"
        if "j < length (calls c)" "j \<noteq> i" "in_section (call_pc (calls c ! j))" for j
        using a [OF that(1) that(3)] free by (auto simp: c')
      show "cache (shared c') (call_key ?t) = None" if "acquiring AtGet"
        using that by simp
      show "cache (shared c') (call_key (calls c ! j)) = None"
        if "j < length (calls c)" "j \<noteq> i" "acquiring (call_pc (calls c ! j))" for j
        using d [OF that(1) that(3)] by (simp add: c')
    qed
  next
    case AtGet
    with st i obtain p s1 where
      c': "c' = \<lparr>shared = s1, held = held c, calls = (calls c)[i := ?t\<lparr>call_pc := p\<rparr>]\<rparr>" and
      s1: "cache s1 = cache (shared c)" and
      p: "acquiring p \<longrightarrow> cache (shared c) (call_key ?t) = None"
      by (auto simp: call_step_def unsafeGet_cache Let_def
               split: if_splits option.splits)
    have ins: "in_section (call_pc ?t)"
      using AtGet by simp
    show ?thesis
    proof (rule serialized_update [OF inv i, where p = p])
      show "calls c' = (calls c)[i := ?t\<lparr>call_pc := p\<rparr>]"
        by (simp add: c')
      show "?lk \<in> held c'"
        using a [OF i ins] by (simp add: c')
      show "shardKeyToStriped x (call_key (calls c ! j)) \<in> held c' \<and>
            (in_section p \<longrightarrow> shardKeyToStriped x (call_key (calls c ! j)) \<noteq> ?lk)"
        if "j < length (calls c)" "j \<noteq> i" "in_section (call_pc (calls c ! j))" for j
        using a [OF that(1) that(3)] b [OF that(1) i that(2) that(3) ins] by (simp add: c')
      show "cache (shared c') (call_key ?t) = None" if "acquiring p"
        using that p by (simp add: c' s1)
      show "cache (shared c') (call_key (calls c ! j)) = None"
        if "j < length (calls c)" "j \<noteq> i" "acquiring (call_pc (calls c ! j))" for j
        using d [OF that(1) that(3)] by (simp add: c' s1)
    qed
  next
    case AtAcquire
    with st i obtain p s2 where
      c': "c' = \<lparr>shared = s2, held = held c, calls = (calls c)[i := ?t\<lparr>call_pc := p\<rparr>]\<rparr>" and
      s2: "s2 = snd (Store_getAccessor (call_env ?t) (shared c) (call_key ?t))"
      by (auto simp: call_step_def Let_def split: if_splits prod.splits sum.splits)
    have cs: "cache s2 = cache (shared c)"
      by (simp add: s2 cache_def Store_getAccessor_cache_lru)
    have ins: "in_section (call_pc ?t)" and acq: "acquiring (call_pc ?t)"
      using AtAcquire by simp_all
    show ?thesis
    proof (rule serialized_update [OF inv i, where p = p])
      show "calls c' = (calls c)[i := ?t\<lparr>call_pc := p\<rparr>]"
        by (simp add: c')
      show "?lk \<in> held c'"
        using a [OF i ins] by (simp add: c')
      show "shardKeyToStriped x (call_key (calls c ! j)) \<in> held c' \<and>
            (in_section p \<longrightarrow> shardKeyToStriped x (call_key (calls c ! j)) \<noteq> ?lk)"
        if "j < length (calls c)" "j \<noteq> i" "in_section (call_pc (calls c ! j))" for j
        using a [OF that(1) that(3)] b [OF that(1) i that(2) that(3) ins] by (simp add: c')
      show "cache (shared c') (call_key ?t) = None"
        using d [OF i acq] by (simp add: c' cs)
      show "cache (shared c') (call_key (calls c ! j)) = None"
        if "j < length (calls c)" "j \<noteq> i" "acquiring (call_pc (calls c ! j))" for j
        using d [OF that(1) that(3)] by (simp add: c' cs)
    qed
  next
    case (AtAdd acc)
    with st i obtain r l where
      c': "c' = \<lparr>shared = (shared c)\<lparr>cache_lru := l\<rparr>, held = held c,
                 calls = (calls c)[i := ?t\<lparr>call_pc := AtUnlock r\<rparr>]\<rparr>" and
      l: "l = snd (unsafeAdd (call_env ?t) (cache_lru (shared c)) (call_key ?t) acc)"
      by (auto simp: call_step_def Let_def split: if_splits prod.splits)
    have ins: "in_section (call_pc ?t)"
      using AtAdd by simp
    show ?thesis
    proof (rule serialized_update [OF inv i, where p = "AtUnlock r"])
      show "calls c' = (calls c)[i := ?t\<lparr>call_pc := AtUnlock r\<rparr>]"
        by (simp add: c')
      show "?lk \<in> held c'"
        using a [OF i ins] by (simp add: c')
      show "shardKeyToStriped x (call_key (calls c ! j)) \<in> held c' \<and>
            (in_section (AtUnlock r) \<longrightarrow> shardKeyToStriped x (call_key (calls c ! j)) \<noteq> ?lk)"
        if "j < length (calls c)" "j \<noteq> i" "in_section (call_pc (calls c ! j))" for j
        using a [OF that(1) that(3)] b [OF that(1) i that(2) that(3) ins] by (simp add: c')
      show "cache (shared c') (call_key ?t) = None" if "acquiring (AtUnlock r)"
        using that by simp
      show "cache (shared c') (call_key (calls c ! j)) = None"
        if j: "j < length (calls c)" "j \<noteq> i" "acquiring (call_pc (calls c ! j))" for j
      proof -
        have "shardKeyToStriped x (call_key (calls c ! j)) \<noteq> ?lk"
          using b [OF j(1) i j(2) acquiring_in_section [OF j(3)] ins] .
        then have "call_key (calls c ! j) \<noteq> call_key ?t"
          by auto
        moreover have "map_of (cache_lru (shared c)) (call_key (calls c ! j)) = None"
          using d [OF j(1) j(3)] by (simp add: cache_def)
        ultimately have "map_of l (call_key (calls c ! j)) = None"
          unfolding l by (rule unsafeAdd_others)
        then show ?thesis
          by (simp add: c')
      qed
    qed
  next
    case (AtUnlock r)
    with st i have
      c': "c' = \<lparr>shared = emit [EvUnlock ?lk] (shared c), held = held c - {?lk},
                 calls = (calls c)[i := ?t\<lparr>call_pc := Returned_with r\<rparr>]\<rparr>"
      by (auto simp: call_step_def Let_def split: if_splits)
    have ins: "in_section (call_pc ?t)"
      using AtUnlock by simp
    show ?thesis
    proof (rule serialized_update [OF inv i, where p = "Returned_with r"])
      show "calls c' = (calls c)[i := ?t\<lparr>call_pc := Returned_with r\<rparr>]"
        by (simp add: c')
      show "?lk \<in> held c'" if "in_section (Returned_with r)"
        using that by simp
      show "shardKeyToStriped x (call_key (calls c ! j)) \<in> held c' \<and>
            (in_section (Returned_with r) \<longrightarrow> shardKeyToStriped x (call_key (calls c ! j)) \<noteq> ?lk)"
        if "j < length (calls c)" "j \<noteq> i" "in_section (call_pc (calls c ! j))" for j
        using a [OF that(1) that(3)] b [OF that(1) i that(2) that(3) ins] by (simp add: c')
      show "cache (shared c') (call_key ?t) = None" if "acquiring (Returned_with r)"
        using that by simp
      show "cache (shared c') (call_key (calls c ! j)) = None"
        if "j < length (calls c)" "j \<noteq> i" "acquiring (call_pc (calls c ! j))" for j
        using d [OF that(1) that(3)] by (simp add: c')
    qed
  next
    case (Returned_with r)
    with st i show ?thesis
      by (simp add: call_step_def Let_def)
  qed
qed

lemma serialized_run:
  "serialized x c \<Longrightarrow> serialized x (run x sched c)"
  by (induction sched arbitrary: c) (auto split: option.splits intro: serialized_step)

lemma serialized_start: "serialized x (start s ks)"
  by (simp add: serialized_def start_def split: prod.splits)


lemma Store_getCachedAccessor_entries:
  "cache_lru (snd (Store_getCachedAccessor x en s key)) = cache_lru s \<or>
   (\<exists>a. cache_lru (snd (Store_getCachedAccessor x en s key))
          = snd (unsafeAdd en (cache_lru s) key a))"
proof (cases "cache s key")
  case (Some a)
  then show ?thesis
    by (simp add: Store_getCachedAccessor_hit)
next
  case None
  let ?s0 = "emit [EvLock (shardKeyToStriped x key)] s"
  obtain r s2 where g: "Store_getAccessor en ?s0 key = (r, s2)"
    by (cases "Store_getAccessor en ?s0 key")
  then have c2: "cache_lru s2 = cache_lru s"
    using Store_getAccessor_cache_lru [of en ?s0 key] by simp
  show ?thesis
  proof (cases r)
    case (Inl e)
    with None g c2 show ?thesis
      by (simp add: Store_getCachedAccessor_def unsafeGet_cache Let_def)
  next
    case (Inr a)
    obtain r' l where u: "unsafeAdd en (cache_lru s) key a = (r', l)"
      by (cases "unsafeAdd en (cache_lru s) key a")
    with None g c2 Inr have "cache_lru (snd (Store_getCachedAccessor x en s key)) = l"
      by (cases r') (simp_all add: Store_getCachedAccessor_def unsafeGet_cache Let_def)
    with u show ?thesis
      by (metis snd_conv)
  qed
qed

lemma Store_getCachedAccessor_distinct:
  "distinct (map fst (cache_lru s)) \<Longrightarrow>
     distinct (map fst (cache_lru (snd (Store_getCachedAccessor x en s key))))"
  using Store_getCachedAccessor_entries [of x en s key] unsafeAdd_distinct [of "cache_lru s" en key]
  by auto

lemma call_step_entries:
  assumes "call_step x i c = Some c'"
  shows "cache_lru (shared c') = cache_lru (shared c) \<or>
         (\<exists>en k a. cache_lru (shared c') = snd (unsafeAdd en (cache_lru (shared c)) k a))"
proof -
  from assms have i: "i < length (calls c)"
    by (rule call_step_index)
  show ?thesis
  proof (cases "call_pc (calls c ! i)")
    case AtLock
    with assms i show ?thesis
      by (auto simp: call_step_def Let_def split: if_splits)
  next
    case AtGet
    with assms i show ?thesis
      by (auto simp: call_step_def Let_def unsafeGet_def split: if_splits option.splits)
  next
    case AtAcquire
    with assms i have "shared c' = snd (Store_getAccessor (call_env (calls c ! i)) (shared c)
                                         (call_key (calls c ! i)))"
      by (auto simp: call_step_def Let_def split: if_splits prod.splits sum.splits)
    then show ?thesis
      by (simp add: Store_getAccessor_cache_lru)
  next
    case (AtAdd a)
    with assms i have "cache_lru (shared c')
        = snd (unsafeAdd (call_env (calls c ! i)) (cache_lru (shared c)) (call_key (calls c ! i)) a)"
      by (auto simp: call_step_def Let_def split: if_splits prod.splits)
    then show ?thesis
      by blast
  next
    case (AtUnlock r)
    with assms i show ?thesis
      by (auto simp: call_step_def Let_def split: if_splits)
  next
    case (Returned_with r)
    with assms i show ?thesis
      by (simp add: call_step_def Let_def)
  qed
qed

lemma distinct_step:
  assumes "distinct (map fst (cache_lru (shared c)))" and "call_step x i c = Some c'"
  shows "distinct (map fst (cache_lru (shared c')))"
  using assms call_step_entries [OF assms(2)] unsafeAdd_distinct [OF assms(1)]
  by auto

lemma distinct_run:
  "distinct (map fst (cache_lru (shared c))) \<Longrightarrow>
     distinct (map fst (cache_lru (shared (run x sched c))))"
  by (induction sched arbitrary: c) (auto split: option.splits intro: distinct_step)

lemma run_alone:
  "run x [0, 0, 0, 0, 0] (start s [(key, en)])
     = \<lparr>shared = snd (Store_getCachedAccessor x en s key), held = {},
        calls = [\<lparr>call_key = key, call_env = en,
                  call_pc = Returned_with (fst (Store_getCachedAccessor x en s key))\<rparr>]\<rparr>"
proof (cases "cache s key")
  case (Some a)
  then show ?thesis
    by (simp add: Store_getCachedAccessor_hit start_def call_step_def unsafeGet_cache Let_def
        emit_def)
next
  case None
  let ?s0 = "emit [EvLock (shardKeyToStriped x key)] s"
  obtain r s2 where g: "Store_getAccessor en ?s0 key = (r, s2)"
    by (cases "Store_getAccessor en ?s0 key")
  show ?thesis
  proof (cases r)
    case (Inl e)
    with None g show ?thesis
      by (simp add: Store_getCachedAccessor_def start_def call_step_def unsafeGet_cache Let_def)
  next
    case (Inr a)
    obtain r' l where u: "unsafeAdd en (cache_lru s2) key a = (r', l)"
      by (cases "unsafeAdd en (cache_lru s2) key a")
    with None g Inr show ?thesis
      by (cases r')
         (simp_all add: Store_getCachedAccessor_def start_def call_step_def unsafeGet_cache Let_def)
  qed
qed


lemma toy_stripe: "shardKeyToStriped toy_ext (KeyFromString ''10'') = 2"
  by (simp add: shardKeyToStriped_def toy_ext_def)

lemma toy_two_calls:
  "run toy_ext [0, 1, 0, 0, 1, 0, 0, 1, 1, 1]
     (start toy_stored [(KeyFromString ''10'', env_ok), (KeyFromString ''10'', env_ok)])
   = \<lparr>shared = toy_cached\<lparr>
          dgstr := [KeyFromString ''10'' \<mapsto> toy_shard\<lparr>sh_state := ShardStateServing\<rparr>],
          trace := [EvLock 2, EvAcquireShard (KeyFromString ''10''), EvUnlock 2,
                    EvLock 2, EvUnlock 2]\<rparr>,
      held = {},
      calls = [\<lparr>call_key = KeyFromString ''10'', call_env = env_ok,
                call_pc = Returned_with (Inr toy_accessor)\<rparr>,
               \<lparr>call_key = KeyFromString ''10'', call_env = env_ok,
                call_pc = Returned_with (Inr toy_accessor)\<rparr>]\<rparr>"
  by (simp add: start_def call_step_def toy_stripe unsafeGet_def unsafeAdd_def
      Store_getAccessor_def AcquireShard_def acquire_result_def Fetch_def FileMount_Fetch_def
      env_ok_acquire toy_stored_def toy_cached_def toy_shard_def toy_accessor_def emit_def
      Let_def)

text \<open>
  Claim C8. The cache never holds two accessors for a key: no key occurs twice among its
  entries, after a call and after any run of calls that are made at the same time, and the
  accessor that a call returns is the one the cache holds for the key afterwards. A lookup
  that finds the key returns the cached accessor and makes no call to the lifecycle manager;
  the store is as before but for the lock and the unlock. Every call takes the lock of its
  stripe, the hash of its key modulo the number of stripes, before anything else and
  releases it last, and acquires the shard at most once in between. When calls run at the
  same time, each statement by statement in any order (one call run alone this way is the
  function), two calls for the same key are never both between their Lock and their Unlock,
  and a call acquires a shard only while the cache holds no accessor for its key. So GetCAR,
  CARBlockstore and GetDAH on a root whose accessor is cached acquire nothing.
\<close>
theorem cached_accessor_is_reused:
  "(cache s key = Some a \<longrightarrow>
      Store_getCachedAccessor x en s key
        = (Inr a, emit [EvLock (shardKeyToStriped x key), EvUnlock (shardKeyToStriped x key)] s)) \<and>
   (\<exists>evs. new_events s (snd (Store_getCachedAccessor x en s key))
             = EvLock (shardKeyToStriped x key) # evs @ [EvUnlock (shardKeyToStriped x key)] \<and>
          length (filter is_acquire evs) \<le> 1) \<and>
   (fst (Store_getCachedAccessor x en s key) = Inr a' \<longrightarrow>
      cache (snd (Store_getCachedAccessor x en s key)) key = Some a') \<and>
   (cache s (key_of root) = Some a \<longrightarrow>
      Store_GetCAR x en s root
        = (Inr (data (sa a)),
           emit [EvLock (shardKeyToStriped x (key_of root)),
                 EvUnlock (shardKeyToStriped x (key_of root))] s) \<and>
      Store_CARBlockstore x en s root
        = (Inr (bs a),
           emit [EvLock (shardKeyToStriped x (key_of root)),
                 EvUnlock (shardKeyToStriped x (key_of root))] s) \<and>
      snd (Store_GetDAH x en s root)
        = emit [EvLock (shardKeyToStriped x (key_of root)),
                EvUnlock (shardKeyToStriped x (key_of root))] s) \<and>
   (distinct (map fst (cache_lru s)) \<longrightarrow>
      distinct (map fst (cache_lru (snd (Store_getCachedAccessor x en s key)))) \<and>
      distinct (map fst (cache_lru (shared (run x sched (start s ks)))))) \<and>
   (0 < stripes x \<longrightarrow> shardKeyToStriped x key < stripes x) \<and>
   run x [0, 0, 0, 0, 0] (start s [(key, en)])
     = \<lparr>shared = snd (Store_getCachedAccessor x en s key), held = {},
        calls = [\<lparr>call_key = key, call_env = en,
                  call_pc = Returned_with (fst (Store_getCachedAccessor x en s key))\<rparr>]\<rparr> \<and>
   serialized x (run x sched (start s ks)) \<and>
   (\<forall>i < length (calls (run x sched (start s ks))).
    \<forall>j < length (calls (run x sched (start s ks))).
      i \<noteq> j \<and>
      call_key (calls (run x sched (start s ks)) ! i) = call_key (calls (run x sched (start s ks)) ! j) \<longrightarrow>
        \<not> (in_section (call_pc (calls (run x sched (start s ks)) ! i)) \<and>
           in_section (call_pc (calls (run x sched (start s ks)) ! j)))) \<and>
   (\<forall>i < length (calls (run x sched (start s ks))).
      call_pc (calls (run x sched (start s ks)) ! i) = AtAcquire \<longrightarrow>
        cache (shared (run x sched (start s ks))) (call_key (calls (run x sched (start s ks)) ! i)) = None)"
proof (intro conjI impI)
  assume "cache s key = Some a"
  then show "Store_getCachedAccessor x en s key
        = (Inr a, emit [EvLock (shardKeyToStriped x key), EvUnlock (shardKeyToStriped x key)] s)"
    by (rule Store_getCachedAccessor_hit)
next
  show "\<exists>evs. new_events s (snd (Store_getCachedAccessor x en s key))
             = EvLock (shardKeyToStriped x key) # evs @ [EvUnlock (shardKeyToStriped x key)] \<and>
          length (filter is_acquire evs) \<le> 1"
    by (rule Store_getCachedAccessor_bracket)
next
  assume "fst (Store_getCachedAccessor x en s key) = Inr a'"
  then show "cache (snd (Store_getCachedAccessor x en s key)) key = Some a'"
    by (rule Store_getCachedAccessor_cached)
next
  assume "cache s (key_of root) = Some a"
  then have c: "Store_getCachedAccessor x en s (KeyFromString (DataHash_String root))
        = (Inr a, emit [EvLock (shardKeyToStriped x (key_of root)),
                        EvUnlock (shardKeyToStriped x (key_of root))] s)"
    using Store_getCachedAccessor_hit [of s "key_of root" a x en]
    by (simp add: key_of_def)
  show "Store_GetCAR x en s root
        = (Inr (data (sa a)),
           emit [EvLock (shardKeyToStriped x (key_of root)),
                 EvUnlock (shardKeyToStriped x (key_of root))] s)"
    by (simp add: Store_GetCAR_def Store_getCAR_def c)
  show "Store_CARBlockstore x en s root
        = (Inr (bs a),
           emit [EvLock (shardKeyToStriped x (key_of root)),
                 EvUnlock (shardKeyToStriped x (key_of root))] s)"
    by (simp add: Store_CARBlockstore_def Store_carBlockstore_def c)
  show "snd (Store_GetDAH x en s root)
        = emit [EvLock (shardKeyToStriped x (key_of root)),
                EvUnlock (shardKeyToStriped x (key_of root))] s"
    by (simp add: Store_GetDAH_def Store_getDAH_def c Let_def split: sum.splits)
next
  assume d: "distinct (map fst (cache_lru s))"
  then show "distinct (map fst (cache_lru (snd (Store_getCachedAccessor x en s key))))"
    by (rule Store_getCachedAccessor_distinct)
  from d have "distinct (map fst (cache_lru (shared (start s ks))))"
    by (simp add: start_def)
  then show "distinct (map fst (cache_lru (shared (run x sched (start s ks)))))"
    by (rule distinct_run)
next
  assume "0 < stripes x"
  then show "shardKeyToStriped x key < stripes x"
    by (simp add: shardKeyToStriped_def)
next
  show "run x [0, 0, 0, 0, 0] (start s [(key, en)])
     = \<lparr>shared = snd (Store_getCachedAccessor x en s key), held = {},
        calls = [\<lparr>call_key = key, call_env = en,
                  call_pc = Returned_with (fst (Store_getCachedAccessor x en s key))\<rparr>]\<rparr>"
    by (rule run_alone)
next
  let ?c = "run x sched (start s ks)"
  show inv: "serialized x ?c"
    by (rule serialized_run) (rule serialized_start)
  show "\<forall>i < length (calls ?c). \<forall>j < length (calls ?c).
      i \<noteq> j \<and> call_key (calls ?c ! i) = call_key (calls ?c ! j) \<longrightarrow>
        \<not> (in_section (call_pc (calls ?c ! i)) \<and> in_section (call_pc (calls ?c ! j)))"
  proof (intro allI impI notI)
    fix i j
    assume b: "i < length (calls ?c)" "j < length (calls ?c)"
      and k: "i \<noteq> j \<and> call_key (calls ?c ! i) = call_key (calls ?c ! j)"
      and both: "in_section (call_pc (calls ?c ! i)) \<and> in_section (call_pc (calls ?c ! j))"
    from inv b k both
    have "shardKeyToStriped x (call_key (calls ?c ! i)) \<noteq> shardKeyToStriped x (call_key (calls ?c ! j))"
      unfolding serialized_def by blast
    with k show False
      by simp
  qed
  show "\<forall>i < length (calls ?c).
      call_pc (calls ?c ! i) = AtAcquire \<longrightarrow> cache (shared ?c) (call_key (calls ?c ! i)) = None"
  proof (intro allI impI)
    fix i
    assume "i < length (calls ?c)" "call_pc (calls ?c ! i) = AtAcquire"
    moreover from this have "acquiring (call_pc (calls ?c ! i))"
      by simp
    ultimately show "cache (shared ?c) (call_key (calls ?c ! i)) = None"
      using inv unfolding serialized_def by blast
  qed
qed


theorem cached_accessor_is_reused_witness:
  "fst (Store_getCachedAccessor toy_ext env_ok toy_stored (key_of toy_root)) = Inr toy_accessor \<and>
   cache (snd (Store_getCachedAccessor toy_ext env_ok toy_stored (key_of toy_root))) (key_of toy_root)
     = Some toy_accessor \<and>
   cache toy_cached (key_of toy_root) = Some toy_accessor \<and>
   Store_getCachedAccessor toy_ext env_ok toy_cached (key_of toy_root)
     = (Inr toy_accessor, emit [EvLock 2, EvUnlock 2] toy_cached) \<and>
   Store_GetCAR toy_ext env_ok toy_cached toy_root
     = (Inr (FileReader [2, 7, 9]), emit [EvLock 2, EvUnlock 2] toy_cached) \<and>
   shardKeyToStriped toy_ext (key_of toy_root) < 256 \<and>
   serialized toy_ext
     (run toy_ext [0, 1, 0, 0, 1, 0, 0, 1, 1, 1]
        (start toy_stored [(KeyFromString ''10'', env_ok), (KeyFromString ''10'', env_ok)])) \<and>
   distinct (map fst (cache_lru (shared
     (run toy_ext [0, 1, 0, 0, 1, 0, 0, 1, 1, 1]
        (start toy_stored [(KeyFromString ''10'', env_ok), (KeyFromString ''10'', env_ok)]))))) \<and>
   map call_pc (calls
     (run toy_ext [0, 1, 0, 0, 1, 0, 0, 1, 1, 1]
        (start toy_stored [(KeyFromString ''10'', env_ok), (KeyFromString ''10'', env_ok)])))
     = [Returned_with (Inr toy_accessor), Returned_with (Inr toy_accessor)] \<and>
   filter is_acquire (trace (shared
     (run toy_ext [0, 1, 0, 0, 1, 0, 0, 1, 1, 1]
        (start toy_stored [(KeyFromString ''10'', env_ok), (KeyFromString ''10'', env_ok)]))))
     = [EvAcquireShard (KeyFromString ''10'')]"
proof -
  let ?two = "[(KeyFromString ''10'', env_ok), (KeyFromString ''10'', env_ok)]"
  let ?sched = "[0, 1, 0, 0, 1, 0, 0, 1, 1, 1 :: nat]"
  note t = cached_accessor_is_reused
  have a: "fst (Store_getCachedAccessor toy_ext env_ok toy_stored (key_of toy_root)) = Inr toy_accessor"
    using getCachedAccessor_acquires [where sh = toy_shard and s = toy_stored
        and key = "key_of toy_root" and en = env_ok and c = "[2, 7, 9]" and x = toy_ext]
    by (simp add: env_ok_acquire toy_stored_def cache_def toy_shard_def toy_key toy_accessor_def)
  with t [of toy_stored "key_of toy_root" _ toy_ext env_ok toy_accessor]
  have b: "cache (snd (Store_getCachedAccessor toy_ext env_ok toy_stored (key_of toy_root)))
             (key_of toy_root) = Some toy_accessor"
    by blast
  have c: "cache toy_cached (key_of toy_root) = Some toy_accessor"
    by (simp add: toy_cached_def cache_def toy_key)
  have l: "shardKeyToStriped toy_ext (key_of toy_root) = 2"
    by (simp add: toy_stripe toy_key)
  have d: "data (sa toy_accessor) = FileReader [2, 7, 9]"
    by (simp add: toy_accessor_def)
  from c l t [of toy_cached "key_of toy_root" toy_accessor toy_ext env_ok, THEN conjunct1]
  have 1: "Store_getCachedAccessor toy_ext env_ok toy_cached (key_of toy_root)
     = (Inr toy_accessor, emit [EvLock 2, EvUnlock 2] toy_cached)"
    by simp
  from c l d t [of toy_cached _ toy_accessor toy_ext env_ok _ toy_root,
      THEN conjunct2, THEN conjunct2, THEN conjunct2, THEN conjunct1]
  have 2: "Store_GetCAR toy_ext env_ok toy_cached toy_root
     = (Inr (FileReader [2, 7, 9]), emit [EvLock 2, EvUnlock 2] toy_cached)"
    by simp
  note rest = t [of toy_stored "key_of toy_root" _ toy_ext env_ok _ _ ?sched ?two,
      THEN conjunct2, THEN conjunct2, THEN conjunct2, THEN conjunct2]
  have n: "0 < stripes toy_ext" "stripes toy_ext = 256"
    by (simp_all add: toy_ext_def)
  have e: "distinct (map fst (cache_lru toy_stored))"
    by (simp add: toy_stored_def)
  from rest [THEN conjunct1] e
  have 3: "distinct (map fst (cache_lru (shared (run toy_ext ?sched (start toy_stored ?two)))))"
    by blast
  from rest [THEN conjunct2, THEN conjunct1] n
  have 4: "shardKeyToStriped toy_ext (key_of toy_root) < 256"
    by simp
  from rest [THEN conjunct2, THEN conjunct2, THEN conjunct2, THEN conjunct1]
  have 5: "serialized toy_ext (run toy_ext ?sched (start toy_stored ?two))" .
  have 6: "map call_pc (calls (run toy_ext ?sched (start toy_stored ?two)))
             = [Returned_with (Inr toy_accessor), Returned_with (Inr toy_accessor)]"
    unfolding toy_two_calls by simp
  have 7: "filter is_acquire (trace (shared (run toy_ext ?sched (start toy_stored ?two))))
             = [EvAcquireShard (KeyFromString ''10'')]"
    unfolding toy_two_calls by (simp add: is_acquire_def)
  from a b c 1 2 3 4 5 6 7 show ?thesis
    by blast
qed

subsection \<open>A root that the store does not hold\<close>
















subsection \<open>Put, then Get\<close>

lemma Store_put_ok_state:
  assumes "fst (Store_put x en s root square) = None"
  shows "\<exists>b old. WriteEDS x square = Inr b \<and>
     files (snd (Store_put x en s root square)) (path_of s root) = Some (overwrite b old) \<and>
     dgstr (snd (Store_put x en s root square)) (key_of root)
       = Some \<lparr>sh_mount = \<lparr>buf = None, readOnce = True, Path = path_of s root\<rparr>,
               sh_state = ShardStateAvailable, sh_err = None\<rparr> \<and>
     cache (snd (Store_put x en s root square)) = cache s"
  using assms
  by (auto simp: Store_put_def Store_Has_def Store_has_def OpenFile_def WriteTo_def
      RegisterShard_def register_result_def Fetch_def Let_def key_of_def path_of_def
       split: option.splits prod.splits sum.splits if_splits select_case.splits bool.splits)

text \<open>
  Claim C2. Let Put of a square under its root succeed on a store that holds neither a shard
  nor a cached accessor for the root, and let the codec be such that decoding what it
  encoded for the square, followed by any bytes, against the root gives a square with the
  same flattened shares. Then a Get of the root whose acquisition is started, whose result
  arrives before the context is done and without error, and whose block view opens, succeeds
  with a square whose flattened shares are those of the square put.
\<close>
theorem Put_then_Get_roundtrip:
  assumes put: "fst (Store_Put x en1 s root square) = None"
      and fresh: "dgstr s (key_of root) = None" "cache s (key_of root) = None"
      and codec: "\<forall>b t. WriteEDS x square = Inr b \<longrightarrow>
          (\<exists>sq'. ReadEDS x (b @ t) root = Inr sq' \<and> Flattened x sq' = Flattened x square)"
      and en2: "init_err en2 = None" "chosen en2 = ResultArrived None" "blockstore_err en2 = None"
  shows "\<exists>sq'. fst (Store_Get x en2 (snd (Store_Put x en1 s root square)) root) = Inr sq' \<and>
               Flattened x sq' = Flattened x square"
proof -
  let ?s1 = "snd (Store_Put x en1 s root square)"
  let ?sh = "\<lparr>sh_mount = \<lparr>buf = None, readOnce = True, Path = path_of s root\<rparr>,
              sh_state = ShardStateAvailable, sh_err = None\<rparr>"
  from put have "fst (Store_put x en1 s root square) = None"
    by (simp add: Store_Put_def)
  from Store_put_ok_state [OF this] obtain b old where
    w: "WriteEDS x square = Inr b" and
    f: "files ?s1 (path_of s root) = Some (overwrite b old)" and
    d: "dgstr ?s1 (key_of root) = Some ?sh" and
    c: "cache ?s1 = cache s"
    unfolding Store_Put_def by blast
  from codec w obtain sq' where
    r: "ReadEDS x (overwrite b old) root = Inr sq'" and
    fl: "Flattened x sq' = Flattened x square"
    unfolding overwrite_def by blast
  have "fst (Store_getCachedAccessor x en2 ?s1 (key_of root))
          = Inr \<lparr>sa = \<lparr>data = FileReader (overwrite b old), shard_key = key_of root\<rparr>,
                 bs = Blockstore_of \<lparr>data = FileReader (overwrite b old), shard_key = key_of root\<rparr>\<rparr>"
    by (rule getCachedAccessor_acquires [where sh = ?sh]) (simp_all add: c fresh d f en2)
  then have "fst (Store_GetCAR x en2 ?s1 root) = Inr (FileReader (overwrite b old))"
    by (auto simp: Store_GetCAR_def Store_getCAR_def key_of_def split: prod.splits sum.splits)
  with r have "fst (Store_Get x en2 ?s1 root) = Inr sq'"
    by (auto simp: Store_Get_def Store_get_def split: prod.splits sum.splits)
  with fl show ?thesis
    by blast
qed

theorem Put_then_Get_roundtrip_witness:
  "fst (Store_Put toy_ext env_ok toy_new toy_root toy_square) = None \<and>
   (\<exists>sq'. fst (Store_Get toy_ext env_ok
                  (snd (Store_Put toy_ext env_ok toy_new toy_root toy_square)) toy_root) = Inr sq' \<and>
          Flattened toy_ext sq' = [[7], [9]])"
proof -
  have e: "gsi_err env_ok = None" "open_err env_ok = None" "copy_err env_ok = None"
    by (simp_all add: env_ok_def)
  have fresh: "dgstr toy_new (key_of toy_root) = None" "cache toy_new (key_of toy_root) = None"
    by (simp_all add: toy_new_def cache_def)
  have k: "KeyFromString (DataHash_String toy_root) = key_of toy_root"
    by (simp add: key_of_def)
  obtain hr where
    h: "Store_Has env_ok toy_new toy_root = ((False, hr), emit [EvGetShardInfo (key_of toy_root)] toy_new)"
    using Store_Has_unregistered [OF fresh(1), of env_ok]
    by (metis prod.collapse)
  have put: "fst (Store_Put toy_ext env_ok toy_new toy_root toy_square) = None"
    by (simp add: Store_Put_def Store_put_def h OpenFile_def WriteTo_def RegisterShard_def
        env_ok_acquire e k fresh toy_ext_def Let_def)
  have codec: "\<forall>b t. WriteEDS toy_ext toy_square = Inr b \<longrightarrow>
          (\<exists>sq'. ReadEDS toy_ext (b @ t) toy_root = Inr sq' \<and>
                 Flattened toy_ext sq' = Flattened toy_ext toy_square)"
    by (simp add: toy_ext_def toy_square_def toy_root_def toy_root_of_def)
  have fl: "Flattened toy_ext toy_square = [[7], [9]]"
    by (simp add: toy_ext_def toy_square_def)
  from Put_then_Get_roundtrip [OF put fresh codec env_ok_acquire] fl put
  show ?thesis
    by simp
qed

end
